theory Spec2Isabelle
  imports Main "HOL-Library.Sublist"
begin

section \<open>Data model\<close>

text \<open>
  The program is \<^verbatim>\<open>guess.py\<close>. A reading is the Python dictionary
  \<^verbatim>\<open>{"initial": .., "final": .., "tone": ..}\<close>; the positional requirement of one
  position and the two aggregate requirements are dictionaries over the same three keys,
  each of which may be absent. One record type with the three keys serves for all of
  them: a reading holds strings, a positional requirement holds optional strings, an
  aggregate requirement holds optional sets of strings (\<open>None\<close> is an absent key).

  Transcriptions are the strings the library \<^verbatim>\<open>pypinyin\<close> returns; the library is
  not part of the program, so the function \<open>pinyin\<close> that the definitions below take as
  their first argument stands for
  \<^verbatim>\<open>pinyin(ch, style=Style.TONE3, heteronym=True)[0]\<close>.
  The characters of a word are of an arbitrary type \<open>'c\<close>, and word positions are the
  indices \<^verbatim>\<open>enumerate\<close> yields, natural numbers.
\<close>

datatype error = IndexError | TypeError

record 'a phon =
  initial :: 'a
  final :: 'a
  tone :: 'a

type_synonym reading = "string phon"
type_synonym pattern = "string option phon"
type_synonym aggregate = "string set option phon"

section \<open>Decomposition of a transcription: \<^verbatim>\<open>get_pronunciations\<close>\<close>

definition initials_list :: "string list" where
  "initials_list =
     [''zh'', ''ch'', ''sh'', ''b'', ''p'', ''m'', ''f'', ''d'', ''t'', ''n'', ''l'',
      ''g'', ''k'', ''h'', ''j'', ''q'', ''x'', ''r'', ''z'', ''c'', ''s'', ''y'', ''w'']"

text \<open>The loop of lines 27 to 30: the first listed initial the syllable starts with,
  the empty string when there is none.\<close>

fun find_initial :: "string list \<Rightarrow> string \<Rightarrow> string" where
  "find_initial [] syllable = []"
| "find_initial (ini # rest) syllable =
     (if prefix ini syllable then ini else find_initial rest syllable)"

text \<open>The body of the loop over the transcriptions, lines 18 to 32. \<open>None\<close> is the
  \<^verbatim>\<open>continue\<close> of line 19: nothing is appended for an empty transcription.\<close>

definition split_py :: "string \<Rightarrow> reading option" where
  "split_py py =
     (if py = [] then None
      else
        let (tn, syllable) =
              (if last py \<in> set ''12345'' then ([last py], butlast py) else ([], py));
            ini = find_initial initials_list syllable;
            fin = drop (length ini) syllable
        in Some \<lparr>initial = ini, final = fin, tone = tn\<rparr>)"

text \<open>Python iterates over \<^verbatim>\<open>set(py_list)\<close> in an order the language leaves open;
  \<open>remdups\<close> is one such order. The verdict of the matcher does not depend on the
  order, as is proved below.\<close>

definition get_pronunciations :: "('c \<Rightarrow> string list) \<Rightarrow> 'c \<Rightarrow> reading list" where
  "get_pronunciations pinyin ch = List.map_filter split_py (remdups (pinyin ch))"

section \<open>The matcher: \<^verbatim>\<open>word_matches\<close>\<close>

text \<open>Lines 48 to 50. \<^verbatim>\<open>word[i]\<close> raises \<^verbatim>\<open>IndexError\<close> beyond the end of the word.
  The dictionary \<^verbatim>\<open>exact_char_reqs\<close> is the list of its items in iteration order.\<close>

fun check_exact :: "'c list \<Rightarrow> (nat \<times> 'c) list \<Rightarrow> error + bool" where
  "check_exact word [] = Inr True"
| "check_exact word ((i, char) # rest) =
     (if i < length word
      then (if word ! i \<noteq> char then Inr False else check_exact word rest)
      else Inl IndexError)"

text \<open>\<^verbatim>\<open>req.get(k) and p[k] != req[k]\<close>: the key is present, its value is not the empty
  string, and the reading differs from it.\<close>

definition differs :: "string option \<Rightarrow> string \<Rightarrow> bool" where
  "differs r v = (case r of None \<Rightarrow> False | Some x \<Rightarrow> x \<noteq> [] \<and> v \<noteq> x)"

text \<open>Lines 59 to 65: the flag \<^verbatim>\<open>ok\<close> for one reading.\<close>

definition pattern_ok :: "pattern \<Rightarrow> reading \<Rightarrow> bool" where
  "pattern_ok req p =
     (\<not> differs (initial req) (initial p) \<and> \<not> differs (final req) (final p)
      \<and> \<not> differs (tone req) (tone p))"

text \<open>Lines 54 to 68: the candidate readings of the character at position \<open>i\<close>.\<close>

definition candidates ::
  "('c \<Rightarrow> string list) \<Rightarrow> (nat \<rightharpoonup> pattern) \<Rightarrow> nat \<Rightarrow> 'c \<Rightarrow> reading list" where
  "candidates pinyin specific_reqs i ch =
     (let poss = get_pronunciations pinyin ch
      in case specific_reqs i of
           None \<Rightarrow> poss
         | Some req \<Rightarrow> filter (pattern_ok req) poss)"

text \<open>The loop of lines 52 to 71 from position \<open>i\<close> on. \<open>None\<close> is the
  \<^verbatim>\<open>return False\<close> of line 70.\<close>

fun build_possibilities ::
  "('c \<Rightarrow> string list) \<Rightarrow> (nat \<rightharpoonup> pattern) \<Rightarrow> nat \<Rightarrow> 'c list \<Rightarrow> reading list list option" where
  "build_possibilities pinyin specific_reqs i [] = Some []"
| "build_possibilities pinyin specific_reqs i (ch # rest) =
     (let poss = candidates pinyin specific_reqs i ch
      in if poss = [] then None
         else (case build_possibilities pinyin specific_reqs (Suc i) rest of
                 None \<Rightarrow> None
               | Some possibilities \<Rightarrow> Some (poss # possibilities)))"

text \<open>\<^verbatim>\<open>k in exclude_reqs and p[k] in exclude_reqs[k]\<close>.\<close>

definition listed :: "string set option \<Rightarrow> string \<Rightarrow> bool" where
  "listed s v = (case s of None \<Rightarrow> False | Some S \<Rightarrow> v \<in> S)"

text \<open>Lines 91 to 96: the three tests that skip a reading.\<close>

definition excluded :: "aggregate \<Rightarrow> reading \<Rightarrow> bool" where
  "excluded exclude_reqs p =
     (listed (initial exclude_reqs) (initial p) \<or> listed (final exclude_reqs) (final p)
      \<or> listed (tone exclude_reqs) (tone p))"

text \<open>\<^verbatim>\<open>ambiguous_reqs.get(k, set())\<close>.\<close>

definition get_set :: "string set option \<Rightarrow> string set" where
  "get_set s = (case s of None \<Rightarrow> {} | Some S \<Rightarrow> S)"

text \<open>Lines 77 to 89: the test of a complete assignment.\<close>

definition aggregate_ok :: "aggregate \<Rightarrow> reading list \<Rightarrow> bool" where
  "aggregate_ok ambiguous_reqs chosen =
     ((\<forall>param \<in> get_set (initial ambiguous_reqs). param \<in> set (map initial chosen))
      \<and> (\<forall>param \<in> get_set (final ambiguous_reqs). param \<in> set (map final chosen))
      \<and> (\<forall>param \<in> get_set (tone ambiguous_reqs). param \<in> set (map tone chosen)))"

text \<open>
  Lines 75 to 100. \<^verbatim>\<open>backtrack\<close> writes into the array \<^verbatim>\<open>chosen\<close> of the enclosing
  call, so the array is passed in and returned. \<open>try_readings\<close> is the loop of lines
  90 to 100 over the readings of position \<open>i\<close> that are still to be tried. The array has
  \<open>n\<close> cells (line 74), so that \<^verbatim>\<open>chosen[i] = p\<close> raises \<^verbatim>\<open>IndexError\<close> from
  \<open>i = n\<close> on; reading a field of a cell that is still \<^verbatim>\<open>None\<close> raises
  \<^verbatim>\<open>TypeError\<close>.
\<close>

function backtrack ::
    "nat \<Rightarrow> reading list list \<Rightarrow> aggregate \<Rightarrow> aggregate \<Rightarrow> nat \<Rightarrow> reading option list
      \<Rightarrow> error + bool \<times> reading option list"
  and try_readings ::
    "nat \<Rightarrow> reading list list \<Rightarrow> aggregate \<Rightarrow> aggregate \<Rightarrow> nat \<Rightarrow> reading list
      \<Rightarrow> reading option list \<Rightarrow> error + bool \<times> reading option list"
where
  "backtrack n possibilities ambiguous_reqs exclude_reqs i chosen =
     (if i = n then
        (if None \<in> set chosen then Inl TypeError
         else Inr (aggregate_ok ambiguous_reqs (map the chosen), chosen))
      else if i < length possibilities then
        try_readings n possibilities ambiguous_reqs exclude_reqs i (possibilities ! i) chosen
      else Inl IndexError)"
| "try_readings n possibilities ambiguous_reqs exclude_reqs i [] chosen = Inr (False, chosen)"
| "try_readings n possibilities ambiguous_reqs exclude_reqs i (p # ps) chosen =
     (if excluded exclude_reqs p then
        try_readings n possibilities ambiguous_reqs exclude_reqs i ps chosen
      else if i < n then
        (case backtrack n possibilities ambiguous_reqs exclude_reqs (Suc i)
                (chosen[i := Some p]) of
           Inl e \<Rightarrow> Inl e
         | Inr (found, chosen') \<Rightarrow>
             if found then Inr (True, chosen')
             else try_readings n possibilities ambiguous_reqs exclude_reqs i ps chosen')
      else Inl IndexError)"
  by pat_completeness auto
termination
  by (relation "inv_image (less_than <*lex*> less_than)
        (\<lambda>x. case x of
           Inl (n, possibilities, a, e, i, chosen) \<Rightarrow> (n - i, Suc (length (possibilities ! i)))
         | Inr (n, possibilities, a, e, i, ps, chosen) \<Rightarrow> (n - i, length ps))")
     auto

text \<open>Lines 46 to 115. An exception raised on the way leaves the function.\<close>

definition word_matches ::
  "('c \<Rightarrow> string list) \<Rightarrow> 'c list \<Rightarrow> (nat \<rightharpoonup> pattern) \<Rightarrow> aggregate \<Rightarrow> aggregate
    \<Rightarrow> (nat \<times> 'c) list \<Rightarrow> 'c set \<Rightarrow> 'c set \<Rightarrow> error + bool" where
  "word_matches pinyin word specific_reqs ambiguous_reqs exclude_reqs exact_char_reqs
       ambiguous_chars non_exist_chars =
     (let n = length word in
      case check_exact word exact_char_reqs of
        Inl e \<Rightarrow> Inl e
      | Inr exact \<Rightarrow>
          if \<not> exact then Inr False
          else
            (case build_possibilities pinyin specific_reqs 0 word of
               None \<Rightarrow> Inr False
             | Some possibilities \<Rightarrow>
                 (case backtrack n possibilities ambiguous_reqs exclude_reqs 0
                         (replicate n None) of
                    Inl e \<Rightarrow> Inl e
                  | Inr (found, chosen) \<Rightarrow>
                      if \<not> found then Inr False
                      else if \<exists>char \<in> ambiguous_chars. char \<notin> set word then Inr False
                      else if \<exists>char \<in> non_exist_chars. char \<in> set word then Inr False
                      else Inr True)))"

section \<open>The filter of \<^verbatim>\<open>search_words\<close>\<close>

text \<open>The loop of lines 333 to 336: the entries the matcher accepts, appended in the
  order of the list; an exception of the matcher ends the search.\<close>

fun collect_results ::
  "('c list \<Rightarrow> error + bool) \<Rightarrow> ('c list \<times> 'l) list \<Rightarrow> error + ('c list \<times> 'l) list" where
  "collect_results matches [] = Inr []"
| "collect_results matches ((word, dict_type) # rest) =
     (case matches word of
        Inl e \<Rightarrow> Inl e
      | Inr ok \<Rightarrow>
          (case collect_results matches rest of
             Inl e \<Rightarrow> Inl e
           | Inr results \<Rightarrow> Inr (if ok then (word, dict_type) # results else results)))"

text \<open>Lines 282 and 333 to 336 of \<^verbatim>\<open>search_words\<close>: the words of the wanted number of
  characters, then the matcher on each of them. \<open>len\<close> is the variable
  \<^verbatim>\<open>length\<close> of the source.\<close>

definition search_words ::
  "('c \<Rightarrow> string list) \<Rightarrow> ('c list \<times> 'l) list \<Rightarrow> nat \<Rightarrow> (nat \<rightharpoonup> pattern) \<Rightarrow> aggregate
    \<Rightarrow> aggregate \<Rightarrow> (nat \<times> 'c) list \<Rightarrow> 'c set \<Rightarrow> 'c set \<Rightarrow> error + ('c list \<times> 'l) list" where
  "search_words pinyin words len specific_reqs ambiguous_reqs exclude_reqs exact_char_reqs
       ambiguous_chars non_exist_chars =
     collect_results
       (\<lambda>word. word_matches pinyin word specific_reqs ambiguous_reqs exclude_reqs
          exact_char_reqs ambiguous_chars non_exist_chars)
       (filter (\<lambda>(w, t). length w = len) words)"

section \<open>The request that \<^verbatim>\<open>search_words\<close> builds\<close>

text \<open>
  Lines 284 to 324 of \<^verbatim>\<open>search_words\<close> build the phonetic part of the request from the
  texts of the entry fields. The texts typed for one position (its initial, final and
  tone) and the texts typed for each of the two aggregate requirements are records over
  the three keys. Python's string methods are not part of the program: \<open>lower\<close> stands
  for \<^verbatim>\<open>str.lower\<close>, \<open>strip\<close> for \<^verbatim>\<open>str.strip\<close> and \<open>split\<close> for
  \<^verbatim>\<open>s.split(",")\<close>. The exact characters and the two sets of characters, which lines
  300 to 302 and 326 to 330 read from other fields, are taken as they are built.
\<close>

type_synonym texts = "string phon"

text \<open>Lines 288 to 299: the requirement of one position, \<open>None\<close> when its three texts are
  empty and nothing is stored for the position.\<close>

definition position_req ::
  "(string \<Rightarrow> string) \<Rightarrow> (string \<Rightarrow> string) \<Rightarrow> texts \<Rightarrow> pattern option" where
  "position_req lower strip inputs =
     (let ini = lower (strip (initial inputs));
          fin = lower (strip (final inputs));
          tn = strip (tone inputs)
      in if ini \<noteq> [] \<or> fin \<noteq> [] \<or> tn \<noteq> []
         then Some \<lparr>initial = (if ini \<noteq> [] then Some ini else None),
                    final = (if fin \<noteq> [] then Some fin else None),
                    tone = (if tn \<noteq> [] then Some tn else None)\<rparr>
         else None)"

text \<open>The loop of lines 287 to 299 from row \<open>i\<close> on, with the dictionary built so far.\<close>

fun build_specific_reqs ::
  "(string \<Rightarrow> string) \<Rightarrow> (string \<Rightarrow> string) \<Rightarrow> nat \<Rightarrow> texts list \<Rightarrow> (nat \<rightharpoonup> pattern)
    \<Rightarrow> (nat \<rightharpoonup> pattern)" where
  "build_specific_reqs lower strip i [] reqs = reqs"
| "build_specific_reqs lower strip i (inputs # rest) reqs =
     build_specific_reqs lower strip (Suc i) rest
       (case position_req lower strip inputs of
          None \<Rightarrow> reqs
        | Some req \<Rightarrow> reqs(i \<mapsto> req))"

text \<open>\<^verbatim>\<open>set(x.strip() for x in s.split(",") if x.strip())\<close>.\<close>

definition split_values :: "(string \<Rightarrow> string) \<Rightarrow> (string \<Rightarrow> string list) \<Rightarrow> string \<Rightarrow> string set" where
  "split_values strip split s = set (filter (\<lambda>x. x \<noteq> []) (map strip (split s)))"

text \<open>Lines 304 to 313, and lines 315 to 324 alike: the dictionary starts with three empty
  sets, and a set is replaced when the text of its field is not empty.\<close>

definition build_aggregate ::
  "(string \<Rightarrow> string) \<Rightarrow> (string \<Rightarrow> string) \<Rightarrow> (string \<Rightarrow> string list) \<Rightarrow> texts \<Rightarrow> aggregate" where
  "build_aggregate lower strip split entries =
     (let ini = lower (strip (initial entries));
          fin = lower (strip (final entries));
          tn = strip (tone entries)
      in \<lparr>initial = Some (if ini \<noteq> [] then split_values strip split ini else {}),
          final = Some (if fin \<noteq> [] then split_values strip split fin else {}),
          tone = Some (if tn \<noteq> [] then split_values strip split tn else {})\<rparr>)"

text \<open>The matcher and the filter on the request built from the typed texts.\<close>

definition matches_typed ::
  "(string \<Rightarrow> string) \<Rightarrow> (string \<Rightarrow> string) \<Rightarrow> (string \<Rightarrow> string list) \<Rightarrow> ('c \<Rightarrow> string list)
    \<Rightarrow> 'c list \<Rightarrow> texts list \<Rightarrow> texts \<Rightarrow> texts \<Rightarrow> (nat \<times> 'c) list \<Rightarrow> 'c set \<Rightarrow> 'c set
    \<Rightarrow> error + bool" where
  "matches_typed lower strip split pinyin word position_inputs amb_entries exc_entries
       exact_char_reqs ambiguous_chars non_exist_chars =
     word_matches pinyin word
       (build_specific_reqs lower strip 0 position_inputs Map.empty)
       (build_aggregate lower strip split amb_entries)
       (build_aggregate lower strip split exc_entries)
       exact_char_reqs ambiguous_chars non_exist_chars"

definition search_typed ::
  "(string \<Rightarrow> string) \<Rightarrow> (string \<Rightarrow> string) \<Rightarrow> (string \<Rightarrow> string list) \<Rightarrow> ('c \<Rightarrow> string list)
    \<Rightarrow> ('c list \<times> 'l) list \<Rightarrow> nat \<Rightarrow> texts list \<Rightarrow> texts \<Rightarrow> texts \<Rightarrow> (nat \<times> 'c) list
    \<Rightarrow> 'c set \<Rightarrow> 'c set \<Rightarrow> error + ('c list \<times> 'l) list" where
  "search_typed lower strip split pinyin words len position_inputs amb_entries exc_entries
       exact_char_reqs ambiguous_chars non_exist_chars =
     search_words pinyin words len
       (build_specific_reqs lower strip 0 position_inputs Map.empty)
       (build_aggregate lower strip split amb_entries)
       (build_aggregate lower strip split exc_entries)
       exact_char_reqs ambiguous_chars non_exist_chars"

section \<open>The request as a whole\<close>

text \<open>The six requirement arguments of \<^verbatim>\<open>word_matches\<close>, under the names the source
  gives them, bundled so that two requests can be compared.\<close>

record 'c request =
  specific_reqs :: "nat \<rightharpoonup> pattern"
  ambiguous_reqs :: aggregate
  exclude_reqs :: aggregate
  exact_char_reqs :: "(nat \<times> 'c) list"
  ambiguous_chars :: "'c set"
  non_exist_chars :: "'c set"

definition matches :: "('c \<Rightarrow> string list) \<Rightarrow> 'c request \<Rightarrow> 'c list \<Rightarrow> error + bool" where
  "matches pinyin R word =
     word_matches pinyin word (specific_reqs R) (ambiguous_reqs R) (exclude_reqs R)
       (exact_char_reqs R) (ambiguous_chars R) (non_exist_chars R)"

definition search ::
  "('c \<Rightarrow> string list) \<Rightarrow> ('c list \<times> 'l) list \<Rightarrow> nat \<Rightarrow> 'c request
     \<Rightarrow> error + ('c list \<times> 'l) list" where
  "search pinyin words len R =
     search_words pinyin words len (specific_reqs R) (ambiguous_reqs R) (exclude_reqs R)
       (exact_char_reqs R) (ambiguous_chars R) (non_exist_chars R)"

datatype field = Initial | Final | Tone

fun get_field :: "field \<Rightarrow> 'a phon \<Rightarrow> 'a" where
  "get_field Initial r = initial r"
| "get_field Final r = final r"
| "get_field Tone r = tone r"

fun set_field :: "field \<Rightarrow> 'a \<Rightarrow> 'a phon \<Rightarrow> 'a phon" where
  "set_field Initial v r = r\<lparr>initial := v\<rparr>"
| "set_field Final v r = r\<lparr>final := v\<rparr>"
| "set_field Tone v r = r\<lparr>tone := v\<rparr>"

text \<open>A dictionary over the three keys with none of them present.\<close>

definition no_keys :: "'a option phon" where
  "no_keys = \<lparr>initial = None, final = None, tone = None\<rparr>"

text \<open>One additional constraint, of the six kinds a request is made of.\<close>

datatype 'c constraint =
    Positional nat field string
  | MustExist field string
  | MustExclude field string
  | ExactChar nat 'c
  | MustContain 'c
  | MustNotContain 'c

text \<open>
  The request with one more constraint. \<open>None\<close> when the constraint is not an additional
  one: the positional field is already present at that position, or the position already
  has its exact character (a dictionary holds one value for a key; storing another one
  replaces the constraint that was there).
\<close>

fun add_constraint :: "'c constraint \<Rightarrow> 'c request \<Rightarrow> 'c request option" where
  "add_constraint (Positional i f v) R =
     (let req = (case specific_reqs R i of None \<Rightarrow> no_keys | Some r \<Rightarrow> r)
      in if get_field f req = None
         then Some (R\<lparr>specific_reqs := (specific_reqs R)(i \<mapsto> set_field f (Some v) req)\<rparr>)
         else None)"
| "add_constraint (MustExist f v) R =
     Some (R\<lparr>ambiguous_reqs :=
        set_field f (Some (insert v (get_set (get_field f (ambiguous_reqs R)))))
          (ambiguous_reqs R)\<rparr>)"
| "add_constraint (MustExclude f v) R =
     Some (R\<lparr>exclude_reqs :=
        set_field f (Some (insert v (get_set (get_field f (exclude_reqs R)))))
          (exclude_reqs R)\<rparr>)"
| "add_constraint (ExactChar i c) R =
     (if i \<in> fst ` set (exact_char_reqs R) then None
      else Some (R\<lparr>exact_char_reqs := exact_char_reqs R @ [(i, c)]\<rparr>))"
| "add_constraint (MustContain c) R = Some (R\<lparr>ambiguous_chars := insert c (ambiguous_chars R)\<rparr>)"
| "add_constraint (MustNotContain c) R =
     Some (R\<lparr>non_exist_chars := insert c (non_exist_chars R)\<rparr>)"

section \<open>The specification's notions\<close>

text \<open>
  The definitions of this section follow the words of the specification, not the code;
  the theorems below compare the code with them.

  A reading carries a must-exclude value when one of its three fields holds a value listed
  for that field.
\<close>

definition carries_excluded :: "aggregate \<Rightarrow> reading \<Rightarrow> bool" where
  "carries_excluded must_exclude r =
     (initial r \<in> get_set (initial must_exclude) \<or> final r \<in> get_set (final must_exclude)
      \<or> tone r \<in> get_set (tone must_exclude))"

text \<open>Every must-exist value of every field appears in at least one chosen reading.\<close>

definition witnessed :: "aggregate \<Rightarrow> reading list \<Rightarrow> bool" where
  "witnessed must_exist rs =
     ((\<forall>v \<in> get_set (initial must_exist). \<exists>r \<in> set rs. initial r = v)
      \<and> (\<forall>v \<in> get_set (final must_exist). \<exists>r \<in> set rs. final r = v)
      \<and> (\<forall>v \<in> get_set (tone must_exist). \<exists>r \<in> set rs. tone r = v))"

text \<open>A reading matches a positional pattern when every field that is set in the pattern
  (present and not the empty string, which is what \<^verbatim>\<open>req.get\<close> tests) equals the
  field of the reading.\<close>

definition field_matches :: "string option \<Rightarrow> string \<Rightarrow> bool" where
  "field_matches r v = (case r of None \<Rightarrow> True | Some x \<Rightarrow> x = [] \<or> v = x)"

definition matches_pattern :: "pattern \<Rightarrow> reading \<Rightarrow> bool" where
  "matches_pattern req p =
     (field_matches (initial req) (initial p) \<and> field_matches (final req) (final p)
      \<and> field_matches (tone req) (tone p))"

text \<open>The readings of the character at position \<open>i\<close> that the positional constraint of
  that position, if there is one, retains.\<close>

definition retained ::
  "('c \<Rightarrow> string list) \<Rightarrow> (nat \<rightharpoonup> pattern) \<Rightarrow> nat \<Rightarrow> 'c \<Rightarrow> reading list" where
  "retained pinyin positional i ch =
     filter (\<lambda>p. case positional i of None \<Rightarrow> True | Some req \<Rightarrow> matches_pattern req p)
       (get_pronunciations pinyin ch)"

text \<open>An assignment of exactly one reading to each character, drawn from the retained
  readings of its position, that satisfies the two aggregate constraints.\<close>

definition satisfying_assignment ::
  "('c \<Rightarrow> string list) \<Rightarrow> 'c list \<Rightarrow> (nat \<rightharpoonup> pattern) \<Rightarrow> aggregate \<Rightarrow> aggregate
    \<Rightarrow> reading list \<Rightarrow> bool" where
  "satisfying_assignment pinyin word positional must_exist must_exclude rs =
     (length rs = length word
      \<and> (\<forall>i<length word. rs ! i \<in> set (retained pinyin positional i (word ! i)))
      \<and> (\<forall>r \<in> set rs. \<not> carries_excluded must_exclude r)
      \<and> witnessed must_exist rs)"

text \<open>The value of a field as it reaches the matcher: the typed text without the blanks
  around it, and for an initial or a final in lower case.\<close>

fun typed_value :: "(string \<Rightarrow> string) \<Rightarrow> (string \<Rightarrow> string) \<Rightarrow> field \<Rightarrow> texts \<Rightarrow> string" where
  "typed_value lower strip Initial t = lower (strip (initial t))"
| "typed_value lower strip Final t = lower (strip (final t))"
| "typed_value lower strip Tone t = strip (tone t)"

text \<open>The values listed in the text of an aggregate field, separated by commas; none
  when the text is empty.\<close>

definition typed_values ::
  "(string \<Rightarrow> string) \<Rightarrow> (string \<Rightarrow> string) \<Rightarrow> (string \<Rightarrow> string list) \<Rightarrow> field \<Rightarrow> texts
    \<Rightarrow> string set" where
  "typed_values lower strip split f t =
     (if typed_value lower strip f t = [] then {}
      else {v. v \<noteq> [] \<and> (\<exists>x \<in> set (split (typed_value lower strip f t)). v = strip x)})"

text \<open>Two typed texts say the same: their initials and their finals agree up to the case
  of the letters, and their tones agree as they are (blanks around a text do not count).\<close>

definition same_typed :: "(string \<Rightarrow> string) \<Rightarrow> (string \<Rightarrow> string) \<Rightarrow> texts \<Rightarrow> texts \<Rightarrow> bool" where
  "same_typed lower strip a b = (\<forall>f. typed_value lower strip f a = typed_value lower strip f b)"

text \<open>An assignment of one reading to each character in which every typed positional
  value that is not empty equals the field of the reading of that position, no reading
  holds a typed must-exclude value, and every typed must-exist value equals the field of
  some reading; equality is equality of strings, letter for letter.\<close>

definition typed_assignment ::
  "(string \<Rightarrow> string) \<Rightarrow> (string \<Rightarrow> string) \<Rightarrow> (string \<Rightarrow> string list) \<Rightarrow> ('c \<Rightarrow> string list)
    \<Rightarrow> 'c list \<Rightarrow> texts list \<Rightarrow> texts \<Rightarrow> texts \<Rightarrow> reading list \<Rightarrow> bool" where
  "typed_assignment lower strip split pinyin word rows must_exist must_exclude rs =
     (length rs = length word
      \<and> (\<forall>i<length word. rs ! i \<in> set (get_pronunciations pinyin (word ! i))
            \<and> (i < length rows \<longrightarrow>
                 (\<forall>f. typed_value lower strip f (rows ! i) \<noteq> [] \<longrightarrow>
                      get_field f (rs ! i) = typed_value lower strip f (rows ! i))))
      \<and> (\<forall>f. \<forall>v \<in> typed_values lower strip split f must_exclude.
            \<forall>r \<in> set rs. get_field f r \<noteq> v)
      \<and> (\<forall>f. \<forall>v \<in> typed_values lower strip split f must_exist.
            \<exists>r \<in> set rs. get_field f r = v))"

section \<open>Auxiliary notions of the proofs\<close>

text \<open>The list \<^verbatim>\<open>possibilities\<close> when the loop of lines 52 to 71 runs to its end.\<close>

definition all_candidates ::
  "('c \<Rightarrow> string list) \<Rightarrow> (nat \<rightharpoonup> pattern) \<Rightarrow> nat \<Rightarrow> 'c list \<Rightarrow> reading list list" where
  "all_candidates pinyin sreq i word =
     map (\<lambda>(k, ch). candidates pinyin sreq k ch) (List.enumerate i word)"

text \<open>One reading per position, taken from the candidates of the position and not
  skipped by the tests of lines 91 to 96.\<close>

definition fits :: "aggregate \<Rightarrow> reading list \<Rightarrow> reading list list \<Rightarrow> bool" where
  "fits exc rs pss = list_all2 (\<lambda>r ps. r \<in> set ps \<and> \<not> excluded exc r) rs pss"

definition assignment_exists ::
  "('c \<Rightarrow> string list) \<Rightarrow> 'c list \<Rightarrow> (nat \<rightharpoonup> pattern) \<Rightarrow> aggregate \<Rightarrow> aggregate \<Rightarrow> bool" where
  "assignment_exists pinyin word sreq amb exc =
     (\<exists>rs. fits exc rs (all_candidates pinyin sreq 0 word) \<and> aggregate_ok amb rs)"

section \<open>Example data\<close>

text \<open>A small table of transcriptions in the format of the library, with characters
  numbered: 0 and 1 spell the word of the specification's scenario that is kept, 2 and 3
  the word that is dropped; 0 is a heteronym; 6 is a Latin capital letter, which the
  library returns as it is.\<close>

definition example_pinyin :: "nat \<Rightarrow> string list" where
  "example_pinyin ch =
     (if ch = 0 then [''zhong4'', ''chong2'']
      else if ch = 1 then [''qing4'']
      else if ch = 2 then [''cong2'']
      else if ch = 3 then [''rong2'']
      else if ch = 4 then [''mao2'']
      else if ch = 5 then [''m2'']
      else if ch = 6 then [''A'']
      else [])"

definition no_request :: "nat request" where
  "no_request =
     \<lparr>specific_reqs = Map.empty, ambiguous_reqs = no_keys, exclude_reqs = no_keys,
      exact_char_reqs = [], ambiguous_chars = {}, non_exist_chars = {}\<rparr>"

text \<open>The three string methods on ASCII text, for the examples: \<^verbatim>\<open>str.lower\<close>,
  \<^verbatim>\<open>str.strip\<close> and \<^verbatim>\<open>s.split(",")\<close>.\<close>

definition ascii_lower :: "string \<Rightarrow> string" where
  "ascii_lower s =
     map (\<lambda>c. case map_of (zip ''ABCDEFGHIJKLMNOPQRSTUVWXYZ'' ''abcdefghijklmnopqrstuvwxyz'') c of
                None \<Rightarrow> c | Some d \<Rightarrow> d) s"

definition ascii_space :: "char \<Rightarrow> bool" where
  "ascii_space c =
     (c \<in> set [CHR '' '', CHR 0x09, CHR 0x0A, CHR 0x0B, CHR 0x0C, CHR 0x0D,
                CHR 0x1C, CHR 0x1D, CHR 0x1E, CHR 0x1F])"

definition ascii_strip :: "string \<Rightarrow> string" where
  "ascii_strip s = rev (dropWhile ascii_space (rev (dropWhile ascii_space s)))"

fun comma_split :: "string \<Rightarrow> string list" where
  "comma_split [] = [[]]"
| "comma_split (c # cs) =
     (if c = CHR '','' then [] # comma_split cs
      else (case comma_split cs of [] \<Rightarrow> [[c]] | x # xs \<Rightarrow> (c # x) # xs))"

definition no_texts :: texts where
  "no_texts = \<lparr>initial = [], final = [], tone = []\<rparr>"

section \<open>Auxiliary lemmas\<close>

lemma all_candidates_simps:
  "all_candidates pinyin sreq i [] = []"
  "all_candidates pinyin sreq i (ch # rest) =
     candidates pinyin sreq i ch # all_candidates pinyin sreq (Suc i) rest"
  by (simp_all add: all_candidates_def)

lemma length_all_candidates: "length (all_candidates pinyin sreq i word) = length word"
  by (simp add: all_candidates_def)

lemma nth_all_candidates:
  "k < length word \<Longrightarrow>
     all_candidates pinyin sreq i word ! k = candidates pinyin sreq (i + k) (word ! k)"
  by (simp add: all_candidates_def nth_enumerate_eq)

lemma build_possibilities_eq:
  "build_possibilities pinyin sreq i word =
     (if [] \<in> set (all_candidates pinyin sreq i word) then None
      else Some (all_candidates pinyin sreq i word))"
  by (induction word arbitrary: i) (auto simp: all_candidates_simps Let_def)

lemma fits_nonempty: "fits exc rs pss \<Longrightarrow> [] \<notin> set pss"
  unfolding fits_def by (induction rs pss rule: list_all2_induct) auto

lemma fits_nth:
  "fits exc rs pss \<longleftrightarrow>
     length rs = length pss
     \<and> (\<forall>k<length pss. rs ! k \<in> set (pss ! k) \<and> \<not> excluded exc (rs ! k))"
  unfolding fits_def by (auto simp: list_all2_conv_all_nth)

lemma check_exact_True:
  "check_exact word ex = Inr True \<longleftrightarrow> (\<forall>(i, c) \<in> set ex. i < length word \<and> word ! i = c)"
  by (induction word ex rule: check_exact.induct) auto

lemma check_exact_in_range:
  "\<forall>(i, c) \<in> set ex. i < length word \<Longrightarrow>
     check_exact word ex = Inr (\<forall>(i, c) \<in> set ex. word ! i = c)"
  by (induction word ex rule: check_exact.induct) auto

lemma check_exact_append:
  "check_exact word (xs @ ys) =
     (case check_exact word xs of
        Inl e \<Rightarrow> Inl e
      | Inr b \<Rightarrow> if b then check_exact word ys else Inr False)"
  by (induction word xs rule: check_exact.induct) auto

lemma take_Suc_upd: "i < length xs \<Longrightarrow> take (Suc i) (xs[i := v]) = take i xs @ [v]"
  by (simp add: take_Suc_conv_app_nth)

lemma take_eq_shorter: "take (Suc i) xs = take (Suc i) ys \<Longrightarrow> take i xs = take i ys"
  by (metis min.absorb1 le_add2 plus_1_eq_Suc take_take)

text \<open>
  The search and its loop, by induction along their calls. From a state in which the
  cells below \<open>i\<close> are filled, the search returns without an exception, keeps the cells
  below \<open>i\<close>, and finds an assignment exactly when one extends these cells.
\<close>

lemma backtrack_char:
  "length chosen = n \<Longrightarrow> length poss = n \<Longrightarrow> i \<le> n \<Longrightarrow> (\<forall>j<i. chosen ! j \<noteq> None) \<Longrightarrow>
     \<exists>b ch'. backtrack n poss amb exc i chosen = Inr (b, ch') \<and> length ch' = n
        \<and> take i ch' = take i chosen
        \<and> (b \<longleftrightarrow> (\<exists>rs. fits exc rs (drop i poss)
                      \<and> aggregate_ok amb (map the (take i chosen) @ rs)))"
  and try_readings_char:
  "length chosen = n \<Longrightarrow> length poss = n \<Longrightarrow> i < n \<Longrightarrow> (\<forall>j<i. chosen ! j \<noteq> None) \<Longrightarrow>
     \<exists>b ch'. try_readings n poss amb exc i ps chosen = Inr (b, ch') \<and> length ch' = n
        \<and> take i ch' = take i chosen
        \<and> (b \<longleftrightarrow> (\<exists>p \<in> set ps. \<not> excluded exc p
                      \<and> (\<exists>rs. fits exc rs (drop (Suc i) poss)
                             \<and> aggregate_ok amb (map the (take i chosen) @ p # rs))))"
proof (induction n poss amb exc i chosen and n poss amb exc i ps chosen
       rule: backtrack_try_readings.induct)
  case (1 n poss amb exc i chosen)
  show ?case
  proof (cases "i = n")
    case True
    have nn: "None \<notin> set chosen"
      using 1(2,5) True by (auto simp: in_set_conv_nth)
    show ?thesis using True nn 1(2,3) by (simp add: fits_def)
  next
    case False
    then have lt: "i < n" using 1(4) by simp
    have dr: "drop i poss = poss ! i # drop (Suc i) poss"
      using lt 1(3) by (simp add: Cons_nth_drop_Suc)
    from 1(1)[OF False _ 1(2) 1(3) lt 1(5)] lt 1(3)
    obtain b ch' where r: "try_readings n poss amb exc i (poss ! i) chosen = Inr (b, ch')"
      "length ch' = n" "take i ch' = take i chosen"
      "b \<longleftrightarrow> (\<exists>p \<in> set (poss ! i). \<not> excluded exc p
                      \<and> (\<exists>rs. fits exc rs (drop (Suc i) poss)
                             \<and> aggregate_ok amb (map the (take i chosen) @ p # rs)))"
      by auto
    have "(\<exists>p \<in> set (poss ! i). \<not> excluded exc p
                      \<and> (\<exists>rs. fits exc rs (drop (Suc i) poss)
                             \<and> aggregate_ok amb (map the (take i chosen) @ p # rs)))
          \<longleftrightarrow> (\<exists>rs. fits exc rs (drop i poss)
                  \<and> aggregate_ok amb (map the (take i chosen) @ rs))"
      unfolding dr fits_def by (auto simp: list_all2_Cons2)
    with r False lt 1(3) show ?thesis by simp
  qed
next
  case (2 n poss amb exc i chosen)
  then show ?case by auto
next
  case (3 n poss amb exc i p ps chosen)
  show ?case
  proof (cases "excluded exc p")
    case True
    with 3(1)[OF True 3(4) 3(5) 3(6) 3(7)] show ?thesis by simp
  next
    case False
    have lt: "i < n" by fact
    have len': "length (chosen[i := Some p]) = n" using 3(4) by simp
    have some': "\<forall>j<Suc i. chosen[i := Some p] ! j \<noteq> None"
      using 3(7) lt 3(4) by (auto simp: nth_list_update less_Suc_eq)
    have tk: "take (Suc i) (chosen[i := Some p]) = take i chosen @ [Some p]"
      using lt 3(4) by (simp add: take_Suc_upd)
    from 3(2)[OF False lt len' 3(5) _ some'] lt
    obtain b ch' where r:
      "backtrack n poss amb exc (Suc i) (chosen[i := Some p]) = Inr (b, ch')"
      "length ch' = n" "take (Suc i) ch' = take (Suc i) (chosen[i := Some p])"
      "b \<longleftrightarrow> (\<exists>rs. fits exc rs (drop (Suc i) poss)
                \<and> aggregate_ok amb (map the (take (Suc i) (chosen[i := Some p])) @ rs))"
      by auto
    have tki: "take i ch' = take i chosen"
      using take_eq_shorter[OF r(3)] by simp
    have b_iff: "b \<longleftrightarrow> (\<exists>rs. fits exc rs (drop (Suc i) poss)
                      \<and> aggregate_ok amb (map the (take i chosen) @ p # rs))"
      using r(4) by (simp add: tk)
    show ?thesis
    proof (cases b)
      case True
      with r False lt tki b_iff show ?thesis by auto
    next
      case nb: False
      have some'': "\<forall>j<i. ch' ! j \<noteq> None"
      proof (intro allI impI)
        fix j assume "j < i"
        then have "ch' ! j = take i ch' ! j" by simp
        also have "\<dots> = chosen ! j" using \<open>j < i\<close> tki by simp
        finally show "ch' ! j \<noteq> None" using 3(7) \<open>j < i\<close> by simp
      qed
      from 3(3)[OF False lt r(1) refl _ r(2) 3(5) lt some''] nb
      obtain b2 ch2 where r2: "try_readings n poss amb exc i ps ch' = Inr (b2, ch2)"
        "length ch2 = n" "take i ch2 = take i ch'"
        "b2 \<longleftrightarrow> (\<exists>q \<in> set ps. \<not> excluded exc q
                      \<and> (\<exists>rs. fits exc rs (drop (Suc i) poss)
                             \<and> aggregate_ok amb (map the (take i ch') @ q # rs)))"
        by auto
      with r False lt tki b_iff nb show ?thesis by auto
    qed
  qed
qed

lemma backtrack_from_start:
  assumes "length chosen = n" "length poss = n"
  shows "\<exists>ch'. backtrack n poss amb exc 0 chosen =
            Inr (\<exists>rs. fits exc rs poss \<and> aggregate_ok amb rs, ch')"
proof -
  from backtrack_char[OF assms, of 0 amb exc]
  obtain b ch' where r: "backtrack n poss amb exc 0 chosen = Inr (b, ch')"
    and b: "b \<longleftrightarrow> (\<exists>rs. fits exc rs poss \<and> aggregate_ok amb rs)"
    by (auto simp del: backtrack.simps)
  show ?thesis unfolding r using b by simp
qed

lemma backtrack_word:
  "\<exists>ch'. backtrack (length word) (all_candidates pinyin sreq 0 word) amb exc 0
            (replicate (length word) None) =
          Inr (assignment_exists pinyin word sreq amb exc, ch')"
  unfolding assignment_exists_def
  by (rule backtrack_from_start) (simp_all add: length_all_candidates)

text \<open>The matcher as a whole: the exception of the exact-character test if there is
  one, and otherwise the conjunction of its four tests.\<close>

lemma word_matches_eq:
  "word_matches pinyin word sreq amb exc ex ac ne =
     (case check_exact word ex of
        Inl e \<Rightarrow> Inl e
      | Inr exact \<Rightarrow>
          Inr (exact \<and> assignment_exists pinyin word sreq amb exc
               \<and> ac \<subseteq> set word \<and> ne \<inter> set word = {}))"
proof (cases "check_exact word ex")
  case (Inl e)
  then show ?thesis by (simp add: word_matches_def)
next
  case (Inr exact)
  show ?thesis
  proof (cases "[] \<in> set (all_candidates pinyin sreq 0 word)")
    case True
    then have "\<not> assignment_exists pinyin word sreq amb exc"
      unfolding assignment_exists_def using fits_nonempty by blast
    with Inr True show ?thesis
      by (simp add: word_matches_def build_possibilities_eq Let_def)
  next
    case False
    obtain ch' where
      "backtrack (length word) (all_candidates pinyin sreq 0 word) amb exc 0
         (replicate (length word) None) =
       Inr (assignment_exists pinyin word sreq amb exc, ch')"
      using backtrack_word by blast
    with Inr False show ?thesis
      by (auto simp: word_matches_def build_possibilities_eq Let_def
               simp del: backtrack.simps)
  qed
qed

lemma word_matches_True:
  "word_matches pinyin word sreq amb exc ex ac ne = Inr True \<longleftrightarrow>
     check_exact word ex = Inr True \<and> assignment_exists pinyin word sreq amb exc
     \<and> ac \<subseteq> set word \<and> ne \<inter> set word = {}"
  unfolding word_matches_eq by (auto split: sum.splits)

lemma word_matches_no_error:
  "(\<exists>b. word_matches pinyin word sreq amb exc ex ac ne = Inr b) \<longleftrightarrow>
     (\<exists>b. check_exact word ex = Inr b)"
  unfolding word_matches_eq by (auto split: sum.splits)

text \<open>The tests of the code and the notions of the specification.\<close>

lemma excluded_iff: "excluded exc r \<longleftrightarrow> carries_excluded exc r"
  by (auto simp: excluded_def carries_excluded_def listed_def get_set_def split: option.splits)

lemma aggregate_ok_iff: "aggregate_ok amb rs \<longleftrightarrow> witnessed amb rs"
  by (auto simp: aggregate_ok_def witnessed_def)

lemma pattern_ok_iff: "pattern_ok req p \<longleftrightarrow> matches_pattern req p"
  by (auto simp: pattern_ok_def matches_pattern_def differs_def field_matches_def
           split: option.splits)

lemma candidates_eq: "candidates pinyin sreq i ch = retained pinyin sreq i ch"
proof -
  have "pattern_ok req = matches_pattern req" for req
    by (rule ext) (rule pattern_ok_iff)
  then show ?thesis
    by (cases "sreq i") (simp_all add: candidates_def retained_def Let_def)
qed

lemma fits_all_candidates:
  "fits exc rs (all_candidates pinyin sreq 0 word) \<longleftrightarrow>
     length rs = length word
     \<and> (\<forall>i<length word. rs ! i \<in> set (retained pinyin sreq i (word ! i)))
     \<and> (\<forall>r \<in> set rs. \<not> carries_excluded exc r)"
  unfolding fits_nth length_all_candidates
  by (auto simp: nth_all_candidates candidates_eq excluded_iff all_set_conv_all_nth)

lemma assignment_exists_iff:
  "assignment_exists pinyin word sreq amb exc \<longleftrightarrow>
     (\<exists>rs. satisfying_assignment pinyin word sreq amb exc rs)"
  unfolding assignment_exists_def satisfying_assignment_def fits_all_candidates
    aggregate_ok_iff
  by auto

section \<open>Evaluation of the example data\<close>

lemmas example_defs =
  word_matches_def candidates_def get_pronunciations_def List.map_filter_def split_py_def
  initials_list_def excluded_def listed_def aggregate_ok_def get_set_def pattern_ok_def
  differs_def example_pinyin_def no_keys_def Let_def

lemma example_readings_0:
  "get_pronunciations example_pinyin 0 =
     [\<lparr>initial = ''zh'', final = ''ong'', tone = ''4''\<rparr>,
      \<lparr>initial = ''ch'', final = ''ong'', tone = ''2''\<rparr>]"
  by (simp add: example_defs)

lemma example_tone_2:
  "word_matches example_pinyin [0] Map.empty (no_keys\<lparr>tone := Some {''2''}\<rparr>) no_keys
     [] {} {} = Inr True"
  by (simp add: example_defs)

section \<open>The search decides the existence of an assignment\<close>

text \<open>
  C1. When every position of the word has a non-empty set of retained readings, the list
  \<^verbatim>\<open>possibilities\<close> is built, the search of line 102 returns, and it reports success
  exactly when there is an assignment of one reading to each character, drawn from the
  retained readings of the position, in which no reading carries a must-exclude value and
  every must-exist value of every field appears in some reading; with no constraints on
  the characters this is the verdict of \<^verbatim>\<open>word_matches\<close>. In particular a word of
  one character whose two readings are zh-ong-4 and ch-ong-2 is accepted when the only
  requirement is that tone 2 exists: the search goes on to the second reading after the
  assignment of the first one has failed the aggregate test.
\<close>

theorem phonetic_success_iff_assignment:
  "((\<forall>i<length word. retained pinyin sreq i (word ! i) \<noteq> []) \<longrightarrow>
      (\<exists>possibilities found chosen.
          build_possibilities pinyin sreq 0 word = Some possibilities
          \<and> backtrack (length word) possibilities amb exc 0 (replicate (length word) None)
              = Inr (found, chosen)
          \<and> (found \<longleftrightarrow> (\<exists>rs. satisfying_assignment pinyin word sreq amb exc rs)))
      \<and> word_matches pinyin word sreq amb exc [] {} {}
          = Inr (\<exists>rs. satisfying_assignment pinyin word sreq amb exc rs))
   \<and> (set (get_pronunciations pinyin c) =
          {\<lparr>initial = ''zh'', final = ''ong'', tone = ''4''\<rparr>,
           \<lparr>initial = ''ch'', final = ''ong'', tone = ''2''\<rparr>} \<longrightarrow>
        word_matches pinyin [c] Map.empty (no_keys\<lparr>tone := Some {''2''}\<rparr>) no_keys [] {} {}
          = Inr True)"
proof (intro conjI impI)
  assume ne: "\<forall>i<length word. retained pinyin sreq i (word ! i) \<noteq> []"
  have "[] \<notin> set (all_candidates pinyin sreq 0 word)"
    using ne
    by (auto simp: in_set_conv_nth length_all_candidates nth_all_candidates candidates_eq)
  then have bp: "build_possibilities pinyin sreq 0 word = Some (all_candidates pinyin sreq 0 word)"
    by (simp add: build_possibilities_eq)
  obtain ch' where
    "backtrack (length word) (all_candidates pinyin sreq 0 word) amb exc 0
         (replicate (length word) None) =
       Inr (assignment_exists pinyin word sreq amb exc, ch')"
    using backtrack_word by blast
  with bp show "\<exists>possibilities found chosen.
          build_possibilities pinyin sreq 0 word = Some possibilities
          \<and> backtrack (length word) possibilities amb exc 0 (replicate (length word) None)
              = Inr (found, chosen)
          \<and> (found \<longleftrightarrow> (\<exists>rs. satisfying_assignment pinyin word sreq amb exc rs))"
    unfolding assignment_exists_iff by blast
next
  assume "\<forall>i<length word. retained pinyin sreq i (word ! i) \<noteq> []"
  show "word_matches pinyin word sreq amb exc [] {} {}
          = Inr (\<exists>rs. satisfying_assignment pinyin word sreq amb exc rs)"
    by (simp add: word_matches_eq assignment_exists_iff)
next
  let ?r1 = "\<lparr>initial = ''zh'', final = ''ong'', tone = ''4''\<rparr>"
  let ?r2 = "\<lparr>initial = ''ch'', final = ''ong'', tone = ''2''\<rparr>"
  let ?amb = "no_keys\<lparr>tone := Some {''2''}\<rparr> :: aggregate"
  assume rd: "set (get_pronunciations pinyin c) = {?r1, ?r2}"
  have "satisfying_assignment pinyin [c] Map.empty ?amb no_keys [?r2]"
    using rd
    by (simp add: satisfying_assignment_def retained_def carries_excluded_def witnessed_def
          get_set_def no_keys_def)
  then have "assignment_exists pinyin [c] Map.empty ?amb no_keys"
    unfolding assignment_exists_iff by blast
  then show "word_matches pinyin [c] Map.empty ?amb no_keys [] {} {} = Inr True"
    by (simp add: word_matches_eq)
qed

theorem phonetic_success_iff_assignment_witness:
  "retained example_pinyin Map.empty 0 (0::nat) \<noteq> []
   \<and> (\<exists>rs. satisfying_assignment example_pinyin [0::nat] Map.empty
           (no_keys\<lparr>tone := Some {''2''}\<rparr>) no_keys rs)
   \<and> set (get_pronunciations example_pinyin 0) =
          {\<lparr>initial = ''zh'', final = ''ong'', tone = ''4''\<rparr>,
           \<lparr>initial = ''ch'', final = ''ong'', tone = ''2''\<rparr>}
   \<and> word_matches example_pinyin [0::nat] Map.empty (no_keys\<lparr>tone := Some {''2''}\<rparr>) no_keys
        [] {} {} = Inr True"
proof -
  have ne: "retained example_pinyin Map.empty 0 (0::nat) \<noteq> []"
    by (simp add: retained_def example_readings_0)
  then have h: "\<forall>i<length [0::nat]. retained example_pinyin Map.empty i ([0] ! i) \<noteq> []"
    by simp
  have rd: "set (get_pronunciations example_pinyin 0) =
          {\<lparr>initial = ''zh'', final = ''ong'', tone = ''4''\<rparr>,
           \<lparr>initial = ''ch'', final = ''ong'', tone = ''2''\<rparr>}"
    by (simp add: example_readings_0)
  note inst = phonetic_success_iff_assignment
      [of "[0::nat]" example_pinyin Map.empty "no_keys\<lparr>tone := Some {''2''}\<rparr>" no_keys 0]
  from inst rd have acc: "word_matches example_pinyin [0::nat] Map.empty
        (no_keys\<lparr>tone := Some {''2''}\<rparr>) no_keys [] {} {} = Inr True"
    by blast
  from inst h have "word_matches example_pinyin [0::nat] Map.empty
        (no_keys\<lparr>tone := Some {''2''}\<rparr>) no_keys [] {} {}
      = Inr (\<exists>rs. satisfying_assignment example_pinyin [0::nat] Map.empty
           (no_keys\<lparr>tone := Some {''2''}\<rparr>) no_keys rs)"
    by blast
  with acc have "\<exists>rs. satisfying_assignment example_pinyin [0::nat] Map.empty
           (no_keys\<lparr>tone := Some {''2''}\<rparr>) no_keys rs"
    by simp
  with ne rd acc show ?thesis by blast
qed

section \<open>Termination\<close>

text \<open>
  C10. The search terminates: \<open>backtrack\<close> and its loop are total functions, accepted
  with a measure that decreases at every call (the number of positions still to fill,
  then the number of readings still to try). Started on the empty array with a list of
  candidates for each of the \<open>n\<close> positions it returns a verdict and raises no
  exception, and \<^verbatim>\<open>word_matches\<close> returns a verdict for every word and request whose
  exact-character positions are all less than the length of the word.
\<close>

theorem word_matches_total:
  "(length possibilities = n \<longrightarrow>
      (\<exists>found chosen.
         backtrack n possibilities amb exc 0 (replicate n None) = Inr (found, chosen)))
   \<and> ((\<forall>(i, c) \<in> set ex. i < length word) \<longrightarrow>
        (\<exists>b. word_matches pinyin word sreq amb exc ex ac ne = Inr b))"
proof (intro conjI impI)
  assume "length possibilities = n"
  then show "\<exists>found chosen.
         backtrack n possibilities amb exc 0 (replicate n None) = Inr (found, chosen)"
    using backtrack_from_start[of "replicate n None" n possibilities amb exc]
    by (auto simp del: backtrack.simps)
next
  assume "\<forall>(i, c) \<in> set ex. i < length word"
  then have "\<exists>b. check_exact word ex = Inr b"
    by (simp add: check_exact_in_range)
  then show "\<exists>b. word_matches pinyin word sreq amb exc ex ac ne = Inr b"
    by (simp add: word_matches_no_error)
qed

theorem word_matches_total_witness:
  "length [get_pronunciations example_pinyin 0, get_pronunciations example_pinyin 1] = 2
   \<and> (\<exists>found chosen.
         backtrack 2 [get_pronunciations example_pinyin 0, get_pronunciations example_pinyin 1]
           (no_keys\<lparr>tone := Some {''2''}\<rparr>) no_keys 0 (replicate 2 None) = Inr (found, chosen))
   \<and> fst ` set [(1, 1::nat)] \<subseteq> {..<length [0, 1::nat]}
   \<and> (\<exists>b. word_matches example_pinyin [0, 1::nat] Map.empty
           (no_keys\<lparr>tone := Some {''2''}\<rparr>) no_keys [(1, 1)] {} {} = Inr b)"
proof -
  have l: "length [get_pronunciations example_pinyin 0, get_pronunciations example_pinyin 1] = 2"
    by simp
  have r: "\<forall>(i, c) \<in> set [(1, 1::nat)]. i < length [0, 1::nat]"
    by simp
  note inst = word_matches_total
      [where possibilities =
              "[get_pronunciations example_pinyin 0, get_pronunciations example_pinyin 1]"
         and n = 2 and amb = "no_keys\<lparr>tone := Some {''2''}\<rparr>" and exc = no_keys
         and ex = "[(1, 1::nat)]" and word = "[0, 1::nat]" and pinyin = example_pinyin
         and sreq = Map.empty and ac = "{}" and ne = "{}"]
  from inst l have a: "\<exists>found chosen.
         backtrack 2 [get_pronunciations example_pinyin 0, get_pronunciations example_pinyin 1]
           (no_keys\<lparr>tone := Some {''2''}\<rparr>) no_keys 0 (replicate 2 None) = Inr (found, chosen)"
    by blast
  from inst r have b: "\<exists>b. word_matches example_pinyin [0, 1::nat] Map.empty
      (no_keys\<lparr>tone := Some {''2''}\<rparr>) no_keys [(1, 1)] {} {} = Inr b"
    by blast
  have c: "fst ` set [(1, 1::nat)] \<subseteq> {..<length [0, 1::nat]}" by simp
  from l a b c show ?thesis by blast
qed

section \<open>Decomposition\<close>

lemma find_initial_find:
  "find_initial xs s = (case find (\<lambda>ini. prefix ini s) xs of None \<Rightarrow> [] | Some ini \<Rightarrow> ini)"
  by (induction xs) auto

lemma find_initial_prefix: "prefix (find_initial xs s) s"
  by (induction xs) auto

lemma find_initial_in: "find_initial xs s = [] \<or> find_initial xs s \<in> set xs"
  by (induction xs) auto

lemma find_initial_none: "\<forall>ini \<in> set xs. \<not> prefix ini s \<Longrightarrow> find_initial xs s = []"
  by (induction xs) auto

lemma find_initial_append_drop: "find_initial xs s @ drop (length (find_initial xs s)) s = s"
proof -
  obtain zs where zs: "s = find_initial xs s @ zs"
    using find_initial_prefix[of xs s] by (auto simp: prefix_def)
  then have "drop (length (find_initial xs s)) s = zs"
    by (metis append_eq_conv_conj)
  then show ?thesis using zs by simp
qed

lemma find_initial_listed: "s \<in> set initials_list \<Longrightarrow> find_initial initials_list s = s"
  unfolding initials_list_def by (elim set_ConsD[elim_format] disjE) simp_all

lemma find_initial_zh: "prefix ''zh'' s \<Longrightarrow> find_initial initials_list s = ''zh''"
  by (simp add: initials_list_def)

lemma find_initial_ch: "prefix ''ch'' s \<Longrightarrow> find_initial initials_list s = ''ch''"
  by (auto simp: initials_list_def prefix_def)

lemma find_initial_sh: "prefix ''sh'' s \<Longrightarrow> find_initial initials_list s = ''sh''"
  by (auto simp: initials_list_def prefix_def)

lemma split_py_Some:
  "py \<noteq> [] \<Longrightarrow>
     split_py py =
       Some \<lparr>initial = find_initial initials_list
                  (if last py \<in> set ''12345'' then butlast py else py),
             final = drop (length (find_initial initials_list
                  (if last py \<in> set ''12345'' then butlast py else py)))
                  (if last py \<in> set ''12345'' then butlast py else py),
             tone = (if last py \<in> set ''12345'' then [last py] else [])\<rparr>"
  by (simp add: split_py_def Let_def)

lemma split_py_nonempty: "split_py py = Some r \<Longrightarrow> py \<noteq> []"
  by (cases "py = []") (simp_all add: split_py_def)

lemma set_map_filter: "set (List.map_filter f xs) = {y. \<exists>x \<in> set xs. f x = Some y}"
  by (induction xs) (auto simp: List.map_filter_def)

text \<open>
  C6. For a transcription that is processed (a non-empty one): when its last character is
  one of the digits 1 to 5, that digit is the tone and the syllable is the transcription
  without it, otherwise the tone is empty and the syllable is the whole transcription; the
  initial is the first entry of the list of initials, in the order of the list, that the
  syllable starts with, and empty when there is none; the final is what follows the
  initial in the syllable, the whole syllable when no initial matched. In the list zh, ch
  and sh come before z, c and s, so that a syllable that starts with zh, ch or sh gets
  that initial.
\<close>

theorem split_py_decomposition:
  assumes "py \<noteq> []"
    and "syllable = (if last py \<in> set ''12345'' then butlast py else py)"
  shows "\<exists>r. split_py py = Some r
     \<and> tone r = (if last py \<in> set ''12345'' then [last py] else [])
     \<and> initial r =
          (case find (\<lambda>ini. prefix ini syllable) initials_list of
             None \<Rightarrow> [] | Some ini \<Rightarrow> ini)
     \<and> initial r @ final r = syllable
     \<and> final r = drop (length (initial r)) syllable
     \<and> (prefix ''zh'' syllable \<longrightarrow> initial r = ''zh'')
     \<and> (prefix ''ch'' syllable \<longrightarrow> initial r = ''ch'')
     \<and> (prefix ''sh'' syllable \<longrightarrow> initial r = ''sh'')
     \<and> ((\<forall>ini \<in> set initials_list. \<not> prefix ini syllable) \<longrightarrow>
           initial r = [] \<and> final r = syllable)
     \<and> ''zh'' \<in> set (takeWhile (\<lambda>ini. ini \<noteq> ''z'') initials_list)
     \<and> ''ch'' \<in> set (takeWhile (\<lambda>ini. ini \<noteq> ''c'') initials_list)
     \<and> ''sh'' \<in> set (takeWhile (\<lambda>ini. ini \<noteq> ''s'') initials_list)"
proof -
  let ?ini = "find_initial initials_list syllable"
  let ?r = "\<lparr>initial = ?ini, final = drop (length ?ini) syllable,
             tone = (if last py \<in> set ''12345'' then [last py] else [])\<rparr>"
  have s: "split_py py = Some ?r"
    using split_py_Some[OF assms(1)] assms(2) by simp
  have t: "tone ?r = (if last py \<in> set ''12345'' then [last py] else [])"
    by simp
  have f: "initial ?r =
          (case find (\<lambda>ini. prefix ini syllable) initials_list of
             None \<Rightarrow> [] | Some ini \<Rightarrow> ini)"
    by (simp add: find_initial_find)
  have a: "initial ?r @ final ?r = syllable"
    by (simp add: find_initial_append_drop)
  have d: "final ?r = drop (length (initial ?r)) syllable"
    by simp
  have zh: "prefix ''zh'' syllable \<longrightarrow> initial ?r = ''zh''"
    by (simp add: find_initial_zh)
  have ch: "prefix ''ch'' syllable \<longrightarrow> initial ?r = ''ch''"
    by (simp add: find_initial_ch)
  have sh: "prefix ''sh'' syllable \<longrightarrow> initial ?r = ''sh''"
    by (simp add: find_initial_sh)
  have no: "(\<forall>ini \<in> set initials_list. \<not> prefix ini syllable) \<longrightarrow>
           initial ?r = [] \<and> final ?r = syllable"
    by (simp add: find_initial_none)
  have o1: "''zh'' \<in> set (takeWhile (\<lambda>ini. ini \<noteq> ''z'') initials_list)"
    by (simp add: initials_list_def)
  have o2: "''ch'' \<in> set (takeWhile (\<lambda>ini. ini \<noteq> ''c'') initials_list)"
    by (simp add: initials_list_def)
  have o3: "''sh'' \<in> set (takeWhile (\<lambda>ini. ini \<noteq> ''s'') initials_list)"
    by (simp add: initials_list_def)
  show ?thesis
    by (rule exI[of _ ?r]) (intro conjI s t f a d zh ch sh no o1 o2 o3)
qed

theorem split_py_decomposition_witness:
  "''zhong4'' \<noteq> [] \<and> ''zhong'' = (if last ''zhong4'' \<in> set ''12345'' then butlast ''zhong4'' else ''zhong4'')
   \<and> prefix ''zh'' ''zhong''
   \<and> split_py ''zhong4'' = Some \<lparr>initial = ''zh'', final = ''ong'', tone = ''4''\<rparr>"
proof -
  have h1: "''zhong4'' \<noteq> []" by simp
  have h2: "''zhong'' = (if last ''zhong4'' \<in> set ''12345'' then butlast ''zhong4'' else ''zhong4'')"
    by simp
  have h3: "prefix ''zh'' ''zhong''" by simp
  from split_py_decomposition[OF h1 h2]
  obtain r where r: "split_py ''zhong4'' = Some r"
    and t: "tone r = (if last ''zhong4'' \<in> set ''12345'' then [last ''zhong4''] else [])"
    and a: "initial r @ final r = ''zhong''"
    and z: "prefix ''zh'' ''zhong'' \<longrightarrow> initial r = ''zh''"
    by blast
  from z h3 have i: "initial r = ''zh''" by blast
  from a i have f: "final r = ''ong''" by simp
  from t have t': "tone r = ''4''" by simp
  from r i f t' have "split_py ''zhong4'' = Some \<lparr>initial = ''zh'', final = ''ong'', tone = ''4''\<rparr>"
    by (cases r) simp
  with h1 h2 h3 show ?thesis by blast
qed

text \<open>
  C7, as amended. Decomposition has no operation that can raise. The only transcription it
  skips is the empty one; every other transcription yields one reading, whose initial,
  final and tone put together are the transcription again. The final of that reading is
  empty exactly when the syllable (the transcription without its tone digit) is empty or is
  itself one of the listed initials, as for \<open>m2\<close>; nothing is skipped as unparseable. The
  readings of a character are those of its non-empty transcriptions.
\<close>

theorem split_py_total:
  "split_py [] = None
   \<and> (py \<noteq> [] \<longrightarrow>
        (\<exists>r. split_py py = Some r
           \<and> initial r @ final r @ tone r = py
           \<and> (final r = [] \<longleftrightarrow>
                (if last py \<in> set ''12345'' then butlast py else py) \<in> insert [] (set initials_list))))
   \<and> set (get_pronunciations pinyin ch) =
        {r. \<exists>py \<in> set (pinyin ch). py \<noteq> [] \<and> split_py py = Some r}"
proof (intro conjI impI)
  show "split_py [] = None" by (simp add: split_py_def)
next
  assume ne: "py \<noteq> []"
  let ?syl = "if last py \<in> set ''12345'' then butlast py else py"
  let ?ini = "find_initial initials_list ?syl"
  let ?r = "\<lparr>initial = ?ini, final = drop (length ?ini) ?syl,
             tone = (if last py \<in> set ''12345'' then [last py] else [])\<rparr>"
  have s: "split_py py = Some ?r"
    using split_py_Some[OF ne] by simp
  have "?syl @ (if last py \<in> set ''12345'' then [last py] else []) = py"
    using ne by simp
  then have c: "initial ?r @ final ?r @ tone ?r = py"
    using find_initial_append_drop[of initials_list ?syl] by (simp flip: append_assoc)
  have e: "final ?r = [] \<longleftrightarrow> ?syl \<in> insert [] (set initials_list)"
  proof
    assume "final ?r = []"
    then have "?ini = ?syl"
      using find_initial_append_drop[of initials_list ?syl] by simp
    then show "?syl \<in> insert [] (set initials_list)"
      using find_initial_in[of initials_list ?syl] by auto
  next
    assume "?syl \<in> insert [] (set initials_list)"
    then have "?ini = ?syl"
      using find_initial_listed[of ?syl] find_initial_prefix[of initials_list "[]"]
      by (cases "?syl = []") auto
    then show "final ?r = []" by simp
  qed
  from s c e show "\<exists>r. split_py py = Some r
           \<and> initial r @ final r @ tone r = py
           \<and> (final r = [] \<longleftrightarrow> ?syl \<in> insert [] (set initials_list))"
    by blast
next
  show "set (get_pronunciations pinyin ch) =
        {r. \<exists>py \<in> set (pinyin ch). py \<noteq> [] \<and> split_py py = Some r}"
    using split_py_nonempty by (auto simp: get_pronunciations_def set_map_filter)
qed

theorem split_py_total_witness:
  "''m2'' \<noteq> []
   \<and> split_py ''m2'' = Some \<lparr>initial = ''m'', final = [], tone = ''2''\<rparr>
   \<and> ''m'' \<in> insert [] (set initials_list)
   \<and> set (get_pronunciations example_pinyin 5) =
        {r. \<exists>py \<in> set (example_pinyin 5). py \<noteq> [] \<and> split_py py = Some r}"
proof -
  have h: "''m2'' \<noteq> []" by simp
  have v: "split_py ''m2'' = Some \<lparr>initial = ''m'', final = [], tone = ''2''\<rparr>"
    by (simp add: example_defs)
  note inst = split_py_total[of "''m2''" example_pinyin 5]
  from inst h obtain r where r: "split_py ''m2'' = Some r"
    and e: "final r = [] \<longleftrightarrow>
       (if last ''m2'' \<in> set ''12345'' then butlast ''m2'' else ''m2'')
         \<in> insert [] (set initials_list)"
    by blast
  from r v have "r = \<lparr>initial = ''m'', final = [], tone = ''2''\<rparr>" by simp
  then have "final r = []" by simp
  with e have m: "''m'' \<in> insert [] (set initials_list)" by simp
  from inst have g: "set (get_pronunciations example_pinyin 5) =
        {r. \<exists>py \<in> set (example_pinyin 5). py \<noteq> [] \<and> split_py py = Some r}"
    by blast
  from h v m g show ?thesis by blast
qed

theorem empty_final_counterexample:
  "get_pronunciations example_pinyin 5 = [\<lparr>initial = ''m'', final = [], tone = ''2''\<rparr>]
   \<and> final \<lparr>initial = ''m'', final = [], tone = ''2''\<rparr> = []"
  by (simp add: example_defs)

section \<open>Rejection\<close>

lemma in_range_rejects:
  assumes "\<forall>(k, c) \<in> set ex. k < length word"
    and "\<not> assignment_exists pinyin word sreq amb exc"
  shows "word_matches pinyin word sreq amb exc ex ac ne = Inr False"
  using assms by (simp add: word_matches_eq check_exact_in_range)

lemma no_assignment_result:
  assumes "\<not> assignment_exists pinyin word sreq amb exc"
  shows "word_matches pinyin word sreq amb exc ex ac ne =
           (case check_exact word ex of Inl e \<Rightarrow> Inl e | Inr exact \<Rightarrow> Inr False)"
  using assms by (cases "check_exact word ex") (simp_all add: word_matches_eq)

lemma example_readings_0_excluded:
  "\<forall>p \<in> set (retained example_pinyin Map.empty 0 (0::nat)).
     carries_excluded (no_keys\<lparr>initial := Some {''zh'', ''ch''}\<rparr>) p"
  by (simp add: retained_def example_readings_0 carries_excluded_def get_set_def no_keys_def)

text \<open>
  C2, as amended. If every candidate reading of some character of the word carries a
  must-exclude value (in particular if one listed value is carried by all of them), the
  matcher never accepts the word: it returns what the exact-character test of lines 48 to
  50 leaves it, and so returns false for every request whose exact-character positions
  are all less than the length of the word. So a word of one character whose readings have
  the initials zh and ch is rejected when both initials are excluded. The test is local to
  the reading at hand: the loop passes over a reading that carries an excluded value
  without writing it into the array and without descending to the next position.
\<close>

theorem excluded_everywhere_rejects:
  "(i < length word
      \<and> (\<forall>p \<in> set (retained pinyin sreq i (word ! i)). carries_excluded exc p) \<longrightarrow>
        word_matches pinyin word sreq amb exc ex ac ne
          = (case check_exact word ex of Inl e \<Rightarrow> Inl e | Inr exact \<Rightarrow> Inr False)
        \<and> ((\<forall>(k, c) \<in> set ex. k < length word) \<longrightarrow>
             word_matches pinyin word sreq amb exc ex ac ne = Inr False))
   \<and> (carries_excluded exc p \<longrightarrow>
        try_readings n possibilities amb exc j (p # ps) chosen
          = try_readings n possibilities amb exc j ps chosen)"
proof (intro conjI impI)
  assume a: "i < length word
      \<and> (\<forall>p \<in> set (retained pinyin sreq i (word ! i)). carries_excluded exc p)"
  have no: "\<not> assignment_exists pinyin word sreq amb exc"
  proof
    assume "assignment_exists pinyin word sreq amb exc"
    then obtain rs where "satisfying_assignment pinyin word sreq amb exc rs"
      unfolding assignment_exists_iff by blast
    then have l: "length rs = length word"
      and m: "rs ! i \<in> set (retained pinyin sreq i (word ! i))"
      and e: "\<forall>r \<in> set rs. \<not> carries_excluded exc r"
      using a by (simp_all add: satisfying_assignment_def)
    from l a have "rs ! i \<in> set rs" by simp
    with e m a show False by blast
  qed
  then show "word_matches pinyin word sreq amb exc ex ac ne
          = (case check_exact word ex of Inl e \<Rightarrow> Inl e | Inr exact \<Rightarrow> Inr False)"
    by (rule no_assignment_result)
  assume "\<forall>(k, c) \<in> set ex. k < length word"
  with no show "word_matches pinyin word sreq amb exc ex ac ne = Inr False"
    by (simp add: in_range_rejects)
next
  assume "carries_excluded exc p"
  then show "try_readings n possibilities amb exc j (p # ps) chosen
          = try_readings n possibilities amb exc j ps chosen"
    by (simp add: excluded_iff)
qed

theorem excluded_everywhere_rejects_witness:
  "fst ` set ([] :: (nat \<times> nat) list) \<subseteq> {..<length [0::nat]}
   \<and> get_pronunciations example_pinyin 0 =
        [\<lparr>initial = ''zh'', final = ''ong'', tone = ''4''\<rparr>,
         \<lparr>initial = ''ch'', final = ''ong'', tone = ''2''\<rparr>]
   \<and> word_matches example_pinyin [0::nat] Map.empty no_keys
        (no_keys\<lparr>initial := Some {''zh'', ''ch''}\<rparr>) [] {} {} = Inr False
   \<and> carries_excluded (no_keys\<lparr>initial := Some {''zh'', ''ch''}\<rparr>)
        \<lparr>initial = ''zh'', final = ''ong'', tone = ''4''\<rparr>
   \<and> try_readings 1 [get_pronunciations example_pinyin 0] no_keys
        (no_keys\<lparr>initial := Some {''zh'', ''ch''}\<rparr>) 0
        (\<lparr>initial = ''zh'', final = ''ong'', tone = ''4''\<rparr> # []) [None]
      = try_readings 1 [get_pronunciations example_pinyin 0] no_keys
        (no_keys\<lparr>initial := Some {''zh'', ''ch''}\<rparr>) 0 [] [None]"
proof -
  let ?exc = "no_keys\<lparr>initial := Some {''zh'', ''ch''}\<rparr> :: aggregate"
  let ?p = "\<lparr>initial = ''zh'', final = ''ong'', tone = ''4''\<rparr>"
  note inst = excluded_everywhere_rejects
      [where ex = "[]" and word = "[0::nat]" and i = 0 and pinyin = example_pinyin
         and sreq = Map.empty and exc = ?exc and amb = no_keys and ac = "{}" and ne = "{}"
         and p = ?p and n = 1 and possibilities = "[get_pronunciations example_pinyin 0]"
         and j = 0 and ps = "[]" and chosen = "[None]"]
  have h1: "\<forall>(k, c) \<in> set ([] :: (nat \<times> nat) list). k < length [0::nat]" by simp
  have h2: "(0::nat) < length [0::nat]" by simp
  have h3: "\<forall>p \<in> set (retained example_pinyin Map.empty 0 ([0::nat] ! 0)).
     carries_excluded ?exc p"
    using example_readings_0_excluded by simp
  have h4: "carries_excluded ?exc ?p"
    by (simp add: carries_excluded_def get_set_def no_keys_def)
  from inst h2 h3 have "(\<forall>(k, c) \<in> set ([] :: (nat \<times> nat) list). k < length [0::nat]) \<longrightarrow>
      word_matches example_pinyin [0::nat] Map.empty no_keys ?exc [] {} {} = Inr False"
    by blast
  with h1 have a: "word_matches example_pinyin [0::nat] Map.empty no_keys
        ?exc [] {} {} = Inr False"
    by blast
  from inst h4 have b: "try_readings 1 [get_pronunciations example_pinyin 0] no_keys
        ?exc 0 (?p # []) [None]
      = try_readings 1 [get_pronunciations example_pinyin 0] no_keys ?exc 0 [] [None]"
    by blast
  have c: "fst ` set ([] :: (nat \<times> nat) list) \<subseteq> {..<length [0::nat]}" by simp
  from a b c h4 example_readings_0 show ?thesis by blast
qed

text \<open>Without the condition on the exact-character positions the statement fails: for a
  position beyond the end of the word line 49 raises \<^verbatim>\<open>IndexError\<close>, although every
  reading of the only character carries the excluded final (and one of the two excluded
  initials).\<close>

theorem excluded_out_of_range_counterexample:
  "get_pronunciations example_pinyin 0 =
        [\<lparr>initial = ''zh'', final = ''ong'', tone = ''4''\<rparr>,
         \<lparr>initial = ''ch'', final = ''ong'', tone = ''2''\<rparr>]
   \<and> word_matches example_pinyin [0::nat] Map.empty no_keys
        (no_keys\<lparr>final := Some {''ong''}\<rparr>) [(1, 0)] {} {} = Inl IndexError
   \<and> word_matches example_pinyin [0::nat] Map.empty no_keys
        (no_keys\<lparr>initial := Some {''zh'', ''ch''}\<rparr>) [(1, 0)] {} {} = Inl IndexError"
  by (simp add: example_readings_0 word_matches_def)

text \<open>
  C3, as amended. If at some position no reading of the character matches every set field
  of the positional constraint of that position (in particular if the character has no
  readings), the loop that builds \<^verbatim>\<open>possibilities\<close> leaves by the \<^verbatim>\<open>return False\<close>
  of line 70, before the search of line 102 is reached: the matcher returns what the
  exact-character test of lines 48 to 50 leaves it, and so returns false, without any
  search, for every request whose exact-character positions are all less than the length
  of the word.
\<close>

theorem empty_candidates_rejects:
  assumes "i < length word"
    and "retained pinyin sreq i (word ! i) = [] \<or> get_pronunciations pinyin (word ! i) = []"
  shows "build_possibilities pinyin sreq 0 word = None
     \<and> word_matches pinyin word sreq amb exc ex ac ne
          = (case check_exact word ex of Inl e \<Rightarrow> Inl e | Inr exact \<Rightarrow> Inr False)
     \<and> ((\<forall>(k, c) \<in> set ex. k < length word) \<longrightarrow>
          word_matches pinyin word sreq amb exc ex ac ne = Inr False)"
proof -
  from assms(2) have "retained pinyin sreq i (word ! i) = []"
    by (auto simp: retained_def)
  then have "all_candidates pinyin sreq 0 word ! i = []"
    using assms(1) by (simp add: nth_all_candidates candidates_eq)
  then have m: "[] \<in> set (all_candidates pinyin sreq 0 word)"
    using assms(1) by (metis length_all_candidates nth_mem)
  then have bp: "build_possibilities pinyin sreq 0 word = None"
    by (simp add: build_possibilities_eq)
  from m have no: "\<not> assignment_exists pinyin word sreq amb exc"
    unfolding assignment_exists_def using fits_nonempty by blast
  have r: "(\<forall>(k, c) \<in> set ex. k < length word) \<longrightarrow>
          word_matches pinyin word sreq amb exc ex ac ne = Inr False"
    using no by (simp add: in_range_rejects)
  from bp no_assignment_result[OF no] r show ?thesis
    by blast
qed

theorem empty_candidates_rejects_witness:
  "fst ` set [(1, 1::nat)] \<subseteq> {..<length [0, 1::nat]}
   \<and> retained example_pinyin (Map.empty(1 \<mapsto> no_keys\<lparr>tone := Some ''2''\<rparr>)) 1 (1::nat) = []
   \<and> get_pronunciations example_pinyin (1::nat) \<noteq> []
   \<and> build_possibilities example_pinyin (Map.empty(1 \<mapsto> no_keys\<lparr>tone := Some ''2''\<rparr>)) 0
        [0, 1::nat] = None
   \<and> word_matches example_pinyin [0, 1::nat] (Map.empty(1 \<mapsto> no_keys\<lparr>tone := Some ''2''\<rparr>))
        no_keys no_keys [(1, 1)] {} {} = Inr False"
proof -
  let ?sreq = "Map.empty(1 \<mapsto> no_keys\<lparr>tone := Some ''2''\<rparr>) :: nat \<rightharpoonup> pattern"
  have g: "get_pronunciations example_pinyin (1::nat) =
      [\<lparr>initial = ''q'', final = ''ing'', tone = ''4''\<rparr>]"
    by (simp add: example_defs)
  have h1: "\<forall>(k, c) \<in> set [(1, 1::nat)]. k < length [0, 1::nat]" by simp
  have h2: "(1::nat) < length [0, 1::nat]" by simp
  have g': "get_pronunciations example_pinyin (Suc 0) =
      [\<lparr>initial = ''q'', final = ''ing'', tone = ''4''\<rparr>]"
    using g by simp
  have r: "retained example_pinyin ?sreq 1 (1::nat) = []"
    by (simp add: retained_def g' matches_pattern_def field_matches_def no_keys_def)
  then have h3: "retained example_pinyin ?sreq 1 ([0, 1::nat] ! 1) = []
     \<or> get_pronunciations example_pinyin ([0, 1::nat] ! 1) = []"
    by simp
  from empty_candidates_rejects[OF h2 h3, of no_keys no_keys "[(1, 1)]" "{}" "{}"] h1
  have "build_possibilities example_pinyin ?sreq 0 [0, 1::nat] = None
     \<and> word_matches example_pinyin [0, 1::nat] ?sreq no_keys no_keys [(1, 1)] {} {} = Inr False"
    by blast
  moreover have "fst ` set [(1, 1::nat)] \<subseteq> {..<length [0, 1::nat]}" by simp
  moreover have "get_pronunciations example_pinyin (1::nat) \<noteq> []" by (simp add: g')
  ultimately show ?thesis using r by blast
qed

text \<open>Without the condition on the exact-character positions the statement fails: the
  only reading of the second character has tone 4, so that the positional tone 2 retains
  nothing, and yet the matcher raises \<^verbatim>\<open>IndexError\<close> at line 49 for the exact character
  of a third position.\<close>

theorem empty_candidates_out_of_range_counterexample:
  "retained example_pinyin (Map.empty(1 \<mapsto> no_keys\<lparr>tone := Some ''2''\<rparr>)) 1 (1::nat) = []
   \<and> word_matches example_pinyin [0, 1::nat] (Map.empty(1 \<mapsto> no_keys\<lparr>tone := Some ''2''\<rparr>))
        no_keys no_keys [(2, 0)] {} {} = Inl IndexError"
proof -
  have g: "get_pronunciations example_pinyin (Suc 0) =
      [\<lparr>initial = ''q'', final = ''ing'', tone = ''4''\<rparr>]"
    by (simp add: example_defs)
  have "retained example_pinyin (Map.empty(1 \<mapsto> no_keys\<lparr>tone := Some ''2''\<rparr>)) 1 (1::nat) = []"
    by (simp add: retained_def g matches_pattern_def field_matches_def no_keys_def)
  moreover have "word_matches example_pinyin [0, 1::nat]
        (Map.empty(1 \<mapsto> no_keys\<lparr>tone := Some ''2''\<rparr>)) no_keys no_keys [(2, 0)] {} {}
      = Inl IndexError"
    by (simp add: word_matches_def)
  ultimately show ?thesis by blast
qed

section \<open>The filter\<close>

lemma collect_results_ok:
  "\<forall>(w, t) \<in> set ws. \<exists>b. m w = Inr b \<Longrightarrow>
     collect_results m ws = Inr (filter (\<lambda>(w, t). m w = Inr True) ws)"
  by (induction m ws rule: collect_results.induct) auto

lemma collect_results_Inr:
  "collect_results m ws = Inr out \<Longrightarrow>
     out = filter (\<lambda>(w, t). m w = Inr True) ws \<and> (\<forall>(w, t) \<in> set ws. \<exists>b. m w = Inr b)"
  by (induction m ws arbitrary: out rule: collect_results.induct)
     (auto split: sum.splits if_splits)

lemma collect_results_cong:
  "(\<And>w t. (w, t) \<in> set ws \<Longrightarrow> m1 w = m2 w) \<Longrightarrow> collect_results m1 ws = collect_results m2 ws"
proof (induction ws)
  case Nil
  show ?case by simp
next
  case (Cons a ws)
  obtain w t where a: "a = (w, t)" by (cases a)
  have h: "m1 w = m2 w" using Cons.prems[of w t] a by simp
  have "m1 w' = m2 w'" if "(w', t') \<in> set ws" for w' t'
    using Cons.prems[of w' t'] that by simp
  then have "collect_results m1 ws = collect_results m2 ws"
    by (rule Cons.IH)
  with h a show ?case by (simp split: sum.splits)
qed

lemma filter_filter_pair:
  "filter (\<lambda>(w, t). P w) (filter (\<lambda>(w, t). Q w) ws) = filter (\<lambda>(w, t). Q w \<and> P w) ws"
  by (induction ws) auto

lemma collect_results_filter:
  assumes "\<forall>(w, t) \<in> set ws. Q w \<longrightarrow> (\<exists>b. m w = Inr b)"
  shows "collect_results m (filter (\<lambda>(w, t). Q w) ws)
           = Inr (filter (\<lambda>(w, t). Q w \<and> m w = Inr True) ws)"
proof -
  have "\<forall>(w, t) \<in> set (filter (\<lambda>(w, t). Q w) ws). \<exists>b. m w = Inr b"
    using assms by auto
  then have "collect_results m (filter (\<lambda>(w, t). Q w) ws)
               = Inr (filter (\<lambda>(w, t). m w = Inr True) (filter (\<lambda>(w, t). Q w) ws))"
    by (rule collect_results_ok)
  then show ?thesis
    unfolding filter_filter_pair .
qed

lemma example_readings_1:
  "get_pronunciations example_pinyin (Suc 0) =
     [\<lparr>initial = ''q'', final = ''ing'', tone = ''4''\<rparr>]"
  by (simp add: example_defs)

lemma example_readings_2:
  "get_pronunciations example_pinyin 2 = [\<lparr>initial = ''c'', final = ''ong'', tone = ''2''\<rparr>]"
  by (simp add: example_defs)

lemma example_readings_3:
  "get_pronunciations example_pinyin 3 = [\<lparr>initial = ''r'', final = ''ong'', tone = ''2''\<rparr>]"
  by (simp add: example_defs)

lemmas match_defs =
  word_matches_def candidates_def excluded_def listed_def aggregate_ok_def get_set_def
  pattern_ok_def differs_def no_keys_def Let_def

lemma example_word_kept:
  "word_matches example_pinyin [0, Suc 0] (Map.empty(0 \<mapsto> no_keys\<lparr>tone := Some ''4''\<rparr>))
     no_keys no_keys [] {} {} = Inr True"
  by (simp add: match_defs example_readings_0 example_readings_1)

lemma example_word_dropped:
  "word_matches example_pinyin [2, 3] (Map.empty(0 \<mapsto> no_keys\<lparr>tone := Some ''4''\<rparr>))
     no_keys no_keys [] {} {} = Inr False"
  by (simp add: match_defs example_readings_2 example_readings_3)

lemma example_scenario:
  "search_words example_pinyin [([0, 1], ''places''), ([2, 3], ''other''), ([0], ''short'')] 2
     (Map.empty(0 \<mapsto> no_keys\<lparr>tone := Some ''4''\<rparr>)) no_keys no_keys [] {} {}
   = Inr [([0, 1], ''places'')]"
  by (simp add: search_words_def example_word_kept example_word_dropped)

text \<open>
  C5, as amended. Whenever the filter returns, it returns exactly the entries of the word
  list whose word has the wanted number of characters and is accepted by the matcher, in
  the order of the list, with their labels, each as often as it occurs, so that every word
  that is returned has the wanted length. It returns for every request whose
  exact-character positions are all less than the wanted length; when no entry qualifies
  the result is then the empty list and not an error.
\<close>

theorem search_words_filter:
  "((\<forall>(i, c) \<in> set ex. i < len) \<longrightarrow>
      search_words pinyin words len sreq amb exc ex ac ne
        = Inr (filter (\<lambda>(w, t). length w = len
                 \<and> word_matches pinyin w sreq amb exc ex ac ne = Inr True) words)
      \<and> ((\<forall>(w, t) \<in> set words. \<not> (length w = len
                 \<and> word_matches pinyin w sreq amb exc ex ac ne = Inr True)) \<longrightarrow>
           search_words pinyin words len sreq amb exc ex ac ne = Inr []))
   \<and> (search_words pinyin words len sreq amb exc ex ac ne = Inr out \<longrightarrow>
        out = filter (\<lambda>(w, t). length w = len
                 \<and> word_matches pinyin w sreq amb exc ex ac ne = Inr True) words
        \<and> (\<forall>(w, t) \<in> set out. length w = len))"
proof (intro conjI impI)
  assume r: "\<forall>(i, c) \<in> set ex. i < len"
  have "\<exists>b. word_matches pinyin w sreq amb exc ex ac ne = Inr b" if "length w = len" for w
    using r that by (simp add: word_matches_no_error check_exact_in_range)
  then have "\<forall>(w, t) \<in> set words. length w = len \<longrightarrow>
          (\<exists>b. word_matches pinyin w sreq amb exc ex ac ne = Inr b)"
    by blast
  then show eq: "search_words pinyin words len sreq amb exc ex ac ne
        = Inr (filter (\<lambda>(w, t). length w = len
                 \<and> word_matches pinyin w sreq amb exc ex ac ne = Inr True) words)"
    unfolding search_words_def by (rule collect_results_filter)
  assume "\<forall>(w, t) \<in> set words. \<not> (length w = len
                 \<and> word_matches pinyin w sreq amb exc ex ac ne = Inr True)"
  then have "filter (\<lambda>(w, t). length w = len
                 \<and> word_matches pinyin w sreq amb exc ex ac ne = Inr True) words = []"
    by (auto simp: filter_empty_conv)
  with eq show "search_words pinyin words len sreq amb exc ex ac ne = Inr []"
    by simp
next
  assume "search_words pinyin words len sreq amb exc ex ac ne = Inr out"
  then have "out = filter (\<lambda>(w, t). word_matches pinyin w sreq amb exc ex ac ne = Inr True)
                 (filter (\<lambda>(w, t). length w = len) words)"
    unfolding search_words_def by (blast dest: collect_results_Inr)
  then show o: "out = filter (\<lambda>(w, t). length w = len
                 \<and> word_matches pinyin w sreq amb exc ex ac ne = Inr True) words"
    by (simp only: filter_filter_pair)
  show "\<forall>(w, t) \<in> set out. length w = len"
    unfolding o by auto
qed

theorem search_words_filter_witness:
  "fst ` set ([] :: (nat \<times> nat) list) \<subseteq> {..<2}
   \<and> search_words example_pinyin [([0, 1], ''places''), ([2, 3], ''other''), ([0], ''short'')] 2
        (Map.empty(0 \<mapsto> no_keys\<lparr>tone := Some ''4''\<rparr>)) no_keys no_keys [] {} {}
      = Inr [([0, 1], ''places'')]
   \<and> filter (\<lambda>(w, t). length w = 2
          \<and> word_matches example_pinyin w (Map.empty(0 \<mapsto> no_keys\<lparr>tone := Some ''4''\<rparr>))
               no_keys no_keys [] {} {} = Inr True)
        [([0, 1], ''places''), ([2, 3], ''other''), ([0], ''short'')]
      = [([0, 1], ''places'')]
   \<and> length (fst ([0, 1::nat], ''places'')) = 2"
proof -
  let ?words = "[([0, 1::nat], ''places''), ([2, 3], ''other''), ([0], ''short'')]"
  let ?sreq = "Map.empty(0 \<mapsto> no_keys\<lparr>tone := Some ''4''\<rparr>) :: nat \<rightharpoonup> pattern"
  note inst = search_words_filter
      [where ex = "[]" and len = 2 and pinyin = example_pinyin and words = ?words
         and sreq = ?sreq and amb = no_keys and exc = no_keys and ac = "{}" and ne = "{}"
         and out = "[([0, 1], ''places'')]"]
  have h: "\<forall>(i, c) \<in> set ([] :: (nat \<times> nat) list). i < 2" by simp
  from inst h have e: "search_words example_pinyin ?words 2 ?sreq no_keys no_keys [] {} {}
        = Inr (filter (\<lambda>(w, t). length w = 2
                 \<and> word_matches example_pinyin w ?sreq no_keys no_keys [] {} {} = Inr True)
             ?words)"
    by blast
  with example_scenario have f: "filter (\<lambda>(w, t). length w = 2
                 \<and> word_matches example_pinyin w ?sreq no_keys no_keys [] {} {} = Inr True)
             ?words = [([0, 1], ''places'')]"
    by simp
  from inst example_scenario have "\<forall>(w, t) \<in> set [([0, 1::nat], ''places'')]. length w = 2"
    by blast
  then have l: "length (fst ([0, 1::nat], ''places'')) = 2" by simp
  have c: "fst ` set ([] :: (nat \<times> nat) list) \<subseteq> {..<2}" by simp
  from c example_scenario f l show ?thesis by blast
qed

text \<open>Without the condition on the exact-character positions the statement fails: with
  the exact character of a third position and words of two characters, no entry is
  accepted and the result is not the empty list but the \<^verbatim>\<open>IndexError\<close> of line 49.\<close>

theorem search_out_of_range_counterexample:
  "word_matches example_pinyin [0, 1::nat] Map.empty no_keys no_keys [(2, 0)] {} {}
     = Inl IndexError
   \<and> search_words example_pinyin [([0, 1::nat], ''places'')] 2 Map.empty no_keys no_keys
        [(2, 0)] {} {} = Inl IndexError"
  by (simp add: search_words_def word_matches_def)

section \<open>Determinism\<close>

lemma get_pronunciations_set_cong:
  "set (p1 ch) = set (p2 ch) \<Longrightarrow>
     set (get_pronunciations p1 ch) = set (get_pronunciations p2 ch)"
  by (simp add: get_pronunciations_def set_map_filter)

lemma retained_set_cong:
  "set (p1 ch) = set (p2 ch) \<Longrightarrow> set (retained p1 sreq i ch) = set (retained p2 sreq i ch)"
  using get_pronunciations_set_cong[of p1 ch p2] by (simp add: retained_def)

lemma satisfying_assignment_cong:
  assumes "\<forall>ch \<in> set word. set (p1 ch) = set (p2 ch)"
  shows "satisfying_assignment p1 word sreq amb exc rs
           = satisfying_assignment p2 word sreq amb exc rs"
proof -
  have h: "set (retained p1 sreq i (word ! i)) = set (retained p2 sreq i (word ! i))"
    if "i < length word" for i
    using assms that by (intro retained_set_cong) simp
  have "(\<forall>i<length word. rs ! i \<in> set (retained p1 sreq i (word ! i)))
      = (\<forall>i<length word. rs ! i \<in> set (retained p2 sreq i (word ! i)))"
    using h by simp
  then show ?thesis
    by (simp only: satisfying_assignment_def)
qed

lemma word_matches_cong:
  assumes "\<forall>ch \<in> set word. set (p1 ch) = set (p2 ch)"
  shows "word_matches p1 word sreq amb exc ex ac ne = word_matches p2 word sreq amb exc ex ac ne"
proof -
  have "assignment_exists p1 word sreq amb exc = assignment_exists p2 word sreq amb exc"
    by (simp only: assignment_exists_iff satisfying_assignment_cong[OF assms])
  then show ?thesis
    by (simp only: word_matches_eq)
qed

text \<open>
  C9. The output of the filter is a function of the word list and of the request: it
  does not depend on the order in which Python enumerates \<^verbatim>\<open>set(py_list)\<close>, the only
  thing in the program that may differ from one run to the next, and the verdict of the
  search does not depend on what the array \<^verbatim>\<open>chosen\<close>, the only store the matcher
  writes to, held before. The word and the request are values the matcher reads and
  never writes.
\<close>

theorem search_words_deterministic:
  "((\<forall>ch. set (pinyin1 ch) = set (pinyin2 ch)) \<longrightarrow>
      search_words pinyin1 words len sreq amb exc ex ac ne
        = search_words pinyin2 words len sreq amb exc ex ac ne)
   \<and> (length chosen1 = n \<and> length chosen2 = n \<and> length possibilities = n \<longrightarrow>
        map_sum id fst (backtrack n possibilities amb exc 0 chosen1)
          = map_sum id fst (backtrack n possibilities amb exc 0 chosen2))"
proof (intro conjI impI)
  assume "\<forall>ch. set (pinyin1 ch) = set (pinyin2 ch)"
  then have "word_matches pinyin1 w sreq amb exc ex ac ne
               = word_matches pinyin2 w sreq amb exc ex ac ne" for w
    by (simp add: word_matches_cong)
  then show "search_words pinyin1 words len sreq amb exc ex ac ne
        = search_words pinyin2 words len sreq amb exc ex ac ne"
    by (simp add: search_words_def)
next
  assume a: "length chosen1 = n \<and> length chosen2 = n \<and> length possibilities = n"
  obtain c1 where c1: "backtrack n possibilities amb exc 0 chosen1 =
            Inr (\<exists>rs. fits exc rs possibilities \<and> aggregate_ok amb rs, c1)"
    using backtrack_from_start[of chosen1 n possibilities amb exc] a by blast
  obtain c2 where c2: "backtrack n possibilities amb exc 0 chosen2 =
            Inr (\<exists>rs. fits exc rs possibilities \<and> aggregate_ok amb rs, c2)"
    using backtrack_from_start[of chosen2 n possibilities amb exc] a by blast
  show "map_sum id fst (backtrack n possibilities amb exc 0 chosen1)
          = map_sum id fst (backtrack n possibilities amb exc 0 chosen2)"
    unfolding c1 c2 by simp
qed

theorem search_words_deterministic_witness:
  "(\<forall>ch. set (example_pinyin ch) = set (rev (example_pinyin ch)))
   \<and> search_words example_pinyin [([0, 1], ''places''), ([2, 3], ''other''), ([0], ''short'')] 2
        (Map.empty(0 \<mapsto> no_keys\<lparr>tone := Some ''4''\<rparr>)) no_keys no_keys [] {} {}
      = Inr [([0, 1], ''places'')]
   \<and> search_words (\<lambda>ch. rev (example_pinyin ch))
        [([0, 1], ''places''), ([2, 3], ''other''), ([0], ''short'')] 2
        (Map.empty(0 \<mapsto> no_keys\<lparr>tone := Some ''4''\<rparr>)) no_keys no_keys [] {} {}
      = Inr [([0, 1], ''places'')]
   \<and> map_sum id fst (backtrack 1 [get_pronunciations example_pinyin 0]
          (no_keys\<lparr>tone := Some {''2''}\<rparr>) no_keys 0 [None])
      = map_sum id fst (backtrack 1 [get_pronunciations example_pinyin 0]
          (no_keys\<lparr>tone := Some {''2''}\<rparr>) no_keys 0
          [Some \<lparr>initial = ''zh'', final = ''ong'', tone = ''4''\<rparr>])"
proof -
  let ?words = "[([0, 1::nat], ''places''), ([2, 3], ''other''), ([0], ''short'')]"
  let ?sreq = "Map.empty(0 \<mapsto> no_keys\<lparr>tone := Some ''4''\<rparr>) :: nat \<rightharpoonup> pattern"
  let ?p2 = "\<lambda>ch. rev (example_pinyin ch)"
  let ?st = "[Some \<lparr>initial = ''zh'', final = ''ong'', tone = ''4''\<rparr>]"
  note inst = search_words_deterministic
      [where ?pinyin1.0 = example_pinyin and ?pinyin2.0 = ?p2 and words = ?words and len = 2
         and sreq = ?sreq and amb = "no_keys\<lparr>tone := Some {''2''}\<rparr>" and exc = no_keys
         and ex = "[]" and ac = "{}" and ne = "{}" and ?chosen1.0 = "[None]"
         and ?chosen2.0 = ?st and n = 1
         and possibilities = "[get_pronunciations example_pinyin 0]"]
  note inst2 = search_words_deterministic
      [where ?pinyin1.0 = example_pinyin and ?pinyin2.0 = ?p2 and words = ?words and len = 2
         and sreq = ?sreq and amb = no_keys and exc = no_keys
         and ex = "[]" and ac = "{}" and ne = "{}" and ?chosen1.0 = "[None]"
         and ?chosen2.0 = ?st and n = 1
         and possibilities = "[get_pronunciations example_pinyin 0]"]
  have h: "\<forall>ch. set (example_pinyin ch) = set (rev (example_pinyin ch))" by simp
  from inst2 h have "search_words example_pinyin ?words 2 ?sreq no_keys no_keys [] {} {}
      = search_words ?p2 ?words 2 ?sreq no_keys no_keys [] {} {}"
    by blast
  with example_scenario have s2: "search_words ?p2 ?words 2 ?sreq no_keys no_keys [] {} {}
      = Inr [([0, 1], ''places'')]"
    by simp
  have l: "length [None :: reading option] = 1 \<and> length ?st = 1
     \<and> length [get_pronunciations example_pinyin 0] = 1"
    by simp
  from inst l have b: "map_sum id fst (backtrack 1 [get_pronunciations example_pinyin 0]
          (no_keys\<lparr>tone := Some {''2''}\<rparr>) no_keys 0 [None])
      = map_sum id fst (backtrack 1 [get_pronunciations example_pinyin 0]
          (no_keys\<lparr>tone := Some {''2''}\<rparr>) no_keys 0 ?st)"
    by blast
  from h example_scenario s2 b show ?thesis by blast
qed

section \<open>Typed values: lower case, then equality\<close>

lemma all_field: "(\<forall>f. P f) \<longleftrightarrow> P Initial \<and> P Final \<and> P Tone"
  by (metis field.exhaust)

lemma ex_field: "(\<exists>f. P f) \<longleftrightarrow> P Initial \<or> P Final \<or> P Tone"
  by (metis field.exhaust)

lemma same_typed_iff:
  "same_typed lower strip a b \<longleftrightarrow>
     lower (strip (initial a)) = lower (strip (initial b))
     \<and> lower (strip (final a)) = lower (strip (final b))
     \<and> strip (tone a) = strip (tone b)"
  by (simp add: same_typed_def all_field)

lemma position_req_same:
  "same_typed lower strip a b \<Longrightarrow> position_req lower strip a = position_req lower strip b"
  by (simp add: same_typed_iff position_req_def)

lemma build_aggregate_same:
  "same_typed lower strip a b \<Longrightarrow>
     build_aggregate lower strip split a = build_aggregate lower strip split b"
  by (simp add: same_typed_iff build_aggregate_def)

lemma build_specific_reqs_same:
  "list_all2 (same_typed lower strip) rows rows' \<Longrightarrow>
     build_specific_reqs lower strip i rows reqs = build_specific_reqs lower strip i rows' reqs"
proof (induction rows rows' arbitrary: i reqs rule: list_all2_induct)
  case Nil
  show ?case by simp
next
  case (Cons a rows b rows')
  have "position_req lower strip a = position_req lower strip b"
    using Cons.hyps(1) by (rule position_req_same)
  then show ?case
    by (simp add: Cons.IH)
qed

lemma build_specific_reqs_apply:
  "build_specific_reqs lower strip i rows reqs k =
     (if i \<le> k \<and> k < i + length rows
      then (case position_req lower strip (rows ! (k - i)) of
              None \<Rightarrow> reqs k | Some req \<Rightarrow> Some req)
      else reqs k)"
proof (induction rows arbitrary: i reqs)
  case Nil
  show ?case by auto
next
  case (Cons a rows)
  show ?case
  proof (cases "k = i")
    case True
    have "build_specific_reqs lower strip (Suc k) rows r' k = r' k" for r'
      by (simp add: Cons.IH)
    then show ?thesis
      unfolding True[symmetric] by (simp split: option.splits)
  next
    case False
    then show ?thesis
      by (auto simp: Cons.IH nth_Cons' Suc_diff_le split: option.splits)
  qed
qed

lemma built_specific_reqs:
  "build_specific_reqs lower strip 0 rows Map.empty k =
     (if k < length rows then position_req lower strip (rows ! k) else None)"
  by (simp add: build_specific_reqs_apply split: option.splits)

lemma matches_position_req:
  "(case position_req lower strip t of None \<Rightarrow> True | Some req \<Rightarrow> matches_pattern req r) \<longleftrightarrow>
     (\<forall>f. typed_value lower strip f t \<noteq> [] \<longrightarrow> get_field f r = typed_value lower strip f t)"
  by (auto simp: all_field position_req_def matches_pattern_def field_matches_def Let_def)

lemma retained_built:
  "r \<in> set (retained pinyin (build_specific_reqs lower strip 0 rows Map.empty) i ch) \<longleftrightarrow>
     r \<in> set (get_pronunciations pinyin ch)
     \<and> (i < length rows \<longrightarrow>
          (\<forall>f. typed_value lower strip f (rows ! i) \<noteq> [] \<longrightarrow>
               get_field f r = typed_value lower strip f (rows ! i)))"
proof (cases "i < length rows")
  case True
  then show ?thesis
    using matches_position_req[where lower = lower and strip = strip and t = "rows ! i"
        and r = r]
    by (simp add: retained_def built_specific_reqs)
next
  case False
  then show ?thesis
    by (simp add: retained_def built_specific_reqs)
qed

lemma split_values_eq:
  "split_values strip split s = {v. v \<noteq> [] \<and> (\<exists>x \<in> set (split s). v = strip x)}"
  by (auto simp: split_values_def)

lemma built_initial:
  "get_set (initial (build_aggregate lower strip split t)) = typed_values lower strip split Initial t"
  by (simp add: build_aggregate_def Let_def get_set_def typed_values_def split_values_eq)

lemma built_final:
  "get_set (final (build_aggregate lower strip split t)) = typed_values lower strip split Final t"
  by (simp add: build_aggregate_def Let_def get_set_def typed_values_def split_values_eq)

lemma built_tone:
  "get_set (tone (build_aggregate lower strip split t)) = typed_values lower strip split Tone t"
  by (simp add: build_aggregate_def Let_def get_set_def typed_values_def split_values_eq)

lemma carries_excluded_built:
  "carries_excluded (build_aggregate lower strip split t) r \<longleftrightarrow>
     (\<exists>f. get_field f r \<in> typed_values lower strip split f t)"
  by (simp only: carries_excluded_def built_initial built_final built_tone ex_field
        get_field.simps)

lemma witnessed_built:
  "witnessed (build_aggregate lower strip split t) rs \<longleftrightarrow>
     (\<forall>f. \<forall>v \<in> typed_values lower strip split f t. \<exists>r \<in> set rs. get_field f r = v)"
  by (simp only: witnessed_def built_initial built_final built_tone all_field get_field.simps)

lemma satisfying_assignment_built:
  "satisfying_assignment pinyin word (build_specific_reqs lower strip 0 rows Map.empty)
       (build_aggregate lower strip split ambt) (build_aggregate lower strip split exct) rs
   \<longleftrightarrow> typed_assignment lower strip split pinyin word rows ambt exct rs"
proof -
  have "(\<forall>r \<in> set rs. \<not> carries_excluded (build_aggregate lower strip split exct) r) \<longleftrightarrow>
      (\<forall>f. \<forall>v \<in> typed_values lower strip split f exct. \<forall>r \<in> set rs. get_field f r \<noteq> v)"
    unfolding carries_excluded_built by blast
  then show ?thesis
    by (simp only: satisfying_assignment_def typed_assignment_def retained_built
          witnessed_built)
qed

lemma example_readings_4:
  "get_pronunciations example_pinyin 4 = [\<lparr>initial = ''m'', final = ''ao'', tone = ''2''\<rparr>]"
  by (simp add: example_defs)

lemma example_readings_6:
  "get_pronunciations example_pinyin 6 = [\<lparr>initial = [], final = ''A'', tone = []\<rparr>]"
  by (simp add: example_defs)

lemma ascii_lower_examples:
  "ascii_lower [] = []" "ascii_lower ''M'' = ''m''" "ascii_lower ''m'' = ''m''"
  "ascii_lower ''A'' = ''a''" "ascii_lower ''a'' = ''a''"
  by (simp_all add: ascii_lower_def)

lemma ascii_strip_examples:
  "ascii_strip [] = []" "ascii_strip ''M'' = ''M''" "ascii_strip ''m'' = ''m''"
  "ascii_strip ''A'' = ''A''" "ascii_strip ''a'' = ''a''"
  by (simp_all add: ascii_strip_def ascii_space_def)

lemma comma_split_examples: "comma_split ''a'' = [''a'']"
  by simp

lemma example_no_texts:
  "build_aggregate ascii_lower ascii_strip comma_split no_texts =
     \<lparr>initial = Some {}, final = Some {}, tone = Some {}\<rparr>"
  by (simp add: build_aggregate_def no_texts_def ascii_lower_examples ascii_strip_examples)

lemma example_row:
  "build_specific_reqs ascii_lower ascii_strip 0 [\<lparr>initial = ''M'', final = [], tone = []\<rparr>]
       Map.empty
     = Map.empty(0 \<mapsto> \<lparr>initial = Some ''m'', final = None, tone = None\<rparr>)"
  "build_specific_reqs ascii_lower ascii_strip 0 [\<lparr>initial = ''m'', final = [], tone = []\<rparr>]
       Map.empty
     = Map.empty(0 \<mapsto> \<lparr>initial = Some ''m'', final = None, tone = None\<rparr>)"
  by (simp_all add: position_req_def ascii_lower_examples ascii_strip_examples)

lemma example_row_latin:
  "build_specific_reqs ascii_lower ascii_strip 0 [\<lparr>initial = [], final = ''A'', tone = []\<rparr>]
       Map.empty
     = Map.empty(0 \<mapsto> \<lparr>initial = None, final = Some ''a'', tone = None\<rparr>)"
  "build_specific_reqs ascii_lower ascii_strip 0 [\<lparr>initial = [], final = ''a'', tone = []\<rparr>]
       Map.empty
     = Map.empty(0 \<mapsto> \<lparr>initial = None, final = Some ''a'', tone = None\<rparr>)"
  by (simp_all add: position_req_def ascii_lower_examples ascii_strip_examples)

lemma example_no_rows: "build_specific_reqs ascii_lower ascii_strip 0 [] Map.empty = Map.empty"
  by simp

lemma example_must_exist_latin:
  "build_aggregate ascii_lower ascii_strip comma_split \<lparr>initial = [], final = ''A'', tone = []\<rparr>
     = \<lparr>initial = Some {}, final = Some {''a''}, tone = Some {}\<rparr>"
  by (simp add: build_aggregate_def split_values_def ascii_lower_examples ascii_strip_examples)

lemma example_m_accepted:
  "word_matches example_pinyin [4::nat]
     (Map.empty(0 \<mapsto> \<lparr>initial = Some ''m'', final = None, tone = None\<rparr>))
     \<lparr>initial = Some {}, final = Some {}, tone = Some {}\<rparr>
     \<lparr>initial = Some {}, final = Some {}, tone = Some {}\<rparr> [] {} {} = Inr True"
  by (simp add: match_defs example_readings_4)

lemma example_latin_rejected:
  "word_matches example_pinyin [6::nat]
     (Map.empty(0 \<mapsto> \<lparr>initial = None, final = Some ''a'', tone = None\<rparr>))
     \<lparr>initial = Some {}, final = Some {}, tone = Some {}\<rparr>
     \<lparr>initial = Some {}, final = Some {}, tone = Some {}\<rparr> [] {} {} = Inr False"
  by (simp add: match_defs example_readings_6)

lemma example_latin_must_exist_rejected:
  "word_matches example_pinyin [6::nat] Map.empty
     \<lparr>initial = Some {}, final = Some {''a''}, tone = Some {}\<rparr>
     \<lparr>initial = Some {}, final = Some {}, tone = Some {}\<rparr> [] {} {} = Inr False"
  by (simp add: match_defs example_readings_6)

text \<open>
  C8, as amended. The initial and final values of a request reach the matcher without the
  blanks around them and in lower case, as \<^verbatim>\<open>search_words\<close> makes them, the tone
  values without the blanks only, and the matcher compares them with the values of the
  readings by equality of strings. So two requests whose typed values say the same (the
  initials and finals agree once in lower case, the tones agree as they are) give the same
  result of the filter for every word list, and a word is accepted exactly when its
  exact-character test and its two character tests pass and there is an assignment of one
  reading to each character in which every typed positional value that is not empty
  equals, once in lower case, the value of the reading of its position, no reading holds a
  must-exclude value, and every must-exist value equals the value of some reading. An
  empty typed value is no constraint, and the value of the reading is compared as it is.
  The initial typed as \<open>M\<close> accepts the reading whose initial is \<open>m\<close>, as \<open>m\<close> does.
\<close>

theorem typed_values_lowered_then_equal:
  "(list_all2 (same_typed lower strip) rows rows' \<and> same_typed lower strip ambt ambt'
      \<and> same_typed lower strip exct exct' \<longrightarrow>
        search_typed lower strip split pinyin words len rows ambt exct ex ac ne
          = search_typed lower strip split pinyin words len rows' ambt' exct' ex ac ne)
   \<and> (matches_typed lower strip split pinyin word rows ambt exct ex ac ne = Inr True \<longleftrightarrow>
        check_exact word ex = Inr True
        \<and> (\<exists>rs. typed_assignment lower strip split pinyin word rows ambt exct rs)
        \<and> ac \<subseteq> set word \<and> ne \<inter> set word = {})"
proof (intro conjI impI)
  assume a: "list_all2 (same_typed lower strip) rows rows' \<and> same_typed lower strip ambt ambt'
      \<and> same_typed lower strip exct exct'"
  then have "build_specific_reqs lower strip 0 rows Map.empty
               = build_specific_reqs lower strip 0 rows' Map.empty"
    and "build_aggregate lower strip split ambt = build_aggregate lower strip split ambt'"
    and "build_aggregate lower strip split exct = build_aggregate lower strip split exct'"
    by (simp_all add: build_specific_reqs_same build_aggregate_same)
  then show "search_typed lower strip split pinyin words len rows ambt exct ex ac ne
          = search_typed lower strip split pinyin words len rows' ambt' exct' ex ac ne"
    by (simp only: search_typed_def)
next
  show "matches_typed lower strip split pinyin word rows ambt exct ex ac ne = Inr True \<longleftrightarrow>
        check_exact word ex = Inr True
        \<and> (\<exists>rs. typed_assignment lower strip split pinyin word rows ambt exct rs)
        \<and> ac \<subseteq> set word \<and> ne \<inter> set word = {}"
    by (simp only: matches_typed_def word_matches_True assignment_exists_iff
          satisfying_assignment_built)
qed

theorem typed_values_lowered_then_equal_witness:
  "list_all2 (same_typed ascii_lower ascii_strip)
       [\<lparr>initial = ''M'', final = [], tone = []\<rparr>] [\<lparr>initial = ''m'', final = [], tone = []\<rparr>]
   \<and> same_typed ascii_lower ascii_strip no_texts no_texts
   \<and> search_typed ascii_lower ascii_strip comma_split example_pinyin [([4::nat], ''w'')] 1
        [\<lparr>initial = ''M'', final = [], tone = []\<rparr>] no_texts no_texts [] {} {}
      = search_typed ascii_lower ascii_strip comma_split example_pinyin [([4::nat], ''w'')] 1
        [\<lparr>initial = ''m'', final = [], tone = []\<rparr>] no_texts no_texts [] {} {}
   \<and> search_typed ascii_lower ascii_strip comma_split example_pinyin [([4::nat], ''w'')] 1
        [\<lparr>initial = ''m'', final = [], tone = []\<rparr>] no_texts no_texts [] {} {}
      = Inr [([4], ''w'')]
   \<and> matches_typed ascii_lower ascii_strip comma_split example_pinyin [4::nat]
        [\<lparr>initial = ''M'', final = [], tone = []\<rparr>] no_texts no_texts [] {} {} = Inr True
   \<and> (\<exists>rs. typed_assignment ascii_lower ascii_strip comma_split example_pinyin [4::nat]
        [\<lparr>initial = ''M'', final = [], tone = []\<rparr>] no_texts no_texts rs)"
proof -
  let ?M = "[\<lparr>initial = ''M'', final = [], tone = []\<rparr>]"
  let ?m = "[\<lparr>initial = ''m'', final = [], tone = []\<rparr>]"
  note inst = typed_values_lowered_then_equal
      [where lower = ascii_lower and strip = ascii_strip and split = comma_split
         and pinyin = example_pinyin and rows = ?M and rows' = ?m and ambt = no_texts
         and ambt' = no_texts and exct = no_texts and exct' = no_texts
         and words = "[([4::nat], ''w'')]" and len = 1 and word = "[4::nat]"
         and ex = "[]" and ac = "{}" and ne = "{}"]
  have h1: "list_all2 (same_typed ascii_lower ascii_strip) ?M ?m"
    by (simp add: same_typed_iff ascii_lower_examples ascii_strip_examples)
  have h2: "same_typed ascii_lower ascii_strip no_texts no_texts"
    by (simp add: same_typed_iff)
  from inst h1 h2
  have e: "search_typed ascii_lower ascii_strip comma_split example_pinyin [([4::nat], ''w'')] 1
        ?M no_texts no_texts [] {} {}
      = search_typed ascii_lower ascii_strip comma_split example_pinyin [([4::nat], ''w'')] 1
        ?m no_texts no_texts [] {} {}"
    by blast
  have s: "search_typed ascii_lower ascii_strip comma_split example_pinyin [([4::nat], ''w'')] 1
        ?m no_texts no_texts [] {} {} = Inr [([4], ''w'')]"
    by (simp add: search_typed_def search_words_def example_row example_no_texts
          example_m_accepted del: build_specific_reqs.simps)
  have m: "matches_typed ascii_lower ascii_strip comma_split example_pinyin [4::nat]
        ?M no_texts no_texts [] {} {} = Inr True"
    by (simp add: matches_typed_def example_row example_no_texts example_m_accepted
          del: build_specific_reqs.simps)
  with inst have t: "\<exists>rs. typed_assignment ascii_lower ascii_strip comma_split example_pinyin
        [4::nat] ?M no_texts no_texts rs"
    by blast
  from h1 h2 e s m t show ?thesis by blast
qed

text \<open>The comparison is not insensitive to case on both sides: only the typed value is
  put in lower case, not the value of the reading. The only reading of the Latin capital
  letter has the final \<open>A\<close>; the word made of this letter is returned neither for the
  positional final typed \<open>A\<close> nor for \<open>a\<close>, nor for the must-exist final \<open>A\<close>.\<close>

theorem one_sided_lower_case_counterexample:
  "get_pronunciations example_pinyin 6 = [\<lparr>initial = [], final = ''A'', tone = []\<rparr>]
   \<and> search_typed ascii_lower ascii_strip comma_split example_pinyin [([6::nat], ''latin'')] 1
        [\<lparr>initial = [], final = ''A'', tone = []\<rparr>] no_texts no_texts [] {} {} = Inr []
   \<and> search_typed ascii_lower ascii_strip comma_split example_pinyin [([6::nat], ''latin'')] 1
        [\<lparr>initial = [], final = ''a'', tone = []\<rparr>] no_texts no_texts [] {} {} = Inr []
   \<and> search_typed ascii_lower ascii_strip comma_split example_pinyin [([6::nat], ''latin'')] 1
        [] \<lparr>initial = [], final = ''A'', tone = []\<rparr> no_texts [] {} {} = Inr []"
  by (simp add: search_typed_def search_words_def example_readings_6 example_row_latin
        example_no_rows example_no_texts example_must_exist_latin example_latin_rejected
        example_latin_must_exist_rejected del: build_specific_reqs.simps)

section \<open>Monotonicity\<close>

lemma satisfying_assignment_mono:
  assumes "\<And>i. i < length word \<Longrightarrow>
             set (retained pinyin sreq2 i (word ! i)) \<subseteq> set (retained pinyin sreq1 i (word ! i))"
    and "\<And>r. carries_excluded exc1 r \<Longrightarrow> carries_excluded exc2 r"
    and "\<And>rs. witnessed amb2 rs \<Longrightarrow> witnessed amb1 rs"
    and "satisfying_assignment pinyin word sreq2 amb2 exc2 rs"
  shows "satisfying_assignment pinyin word sreq1 amb1 exc1 rs"
proof -
  from assms(4) have l: "length rs = length word"
    and m: "\<forall>i<length word. rs ! i \<in> set (retained pinyin sreq2 i (word ! i))"
    and e: "\<forall>r \<in> set rs. \<not> carries_excluded exc2 r"
    and w: "witnessed amb2 rs"
    by (simp_all add: satisfying_assignment_def)
  from m assms(1) have m': "\<forall>i<length word. rs ! i \<in> set (retained pinyin sreq1 i (word ! i))"
    by blast
  from e assms(2) have e': "\<forall>r \<in> set rs. \<not> carries_excluded exc1 r"
    by blast
  from l m' e' assms(3)[OF w] show ?thesis
    by (simp add: satisfying_assignment_def)
qed

lemma check_exact_prefix:
  "check_exact word (xs @ ys) = Inr b \<Longrightarrow> \<exists>b'. check_exact word xs = Inr b'"
  by (cases "check_exact word xs") (simp_all add: check_exact_append)

lemma check_exact_prefix_True:
  "check_exact word (xs @ ys) = Inr True \<Longrightarrow> check_exact word xs = Inr True"
  by (auto simp: check_exact_True)

lemma word_matches_mono:
  assumes "ex2 = ex1 @ zs"
    and "\<And>i. i < length word \<Longrightarrow>
             set (retained pinyin sreq2 i (word ! i)) \<subseteq> set (retained pinyin sreq1 i (word ! i))"
    and "\<And>r. carries_excluded exc1 r \<Longrightarrow> carries_excluded exc2 r"
    and "\<And>rs. witnessed amb2 rs \<Longrightarrow> witnessed amb1 rs"
    and "ac1 \<subseteq> ac2" and "ne1 \<subseteq> ne2"
  shows "word_matches pinyin word sreq2 amb2 exc2 ex2 ac2 ne2 = Inr True \<Longrightarrow>
           word_matches pinyin word sreq1 amb1 exc1 ex1 ac1 ne1 = Inr True"
    and "\<exists>b. word_matches pinyin word sreq2 amb2 exc2 ex2 ac2 ne2 = Inr b \<Longrightarrow>
           \<exists>b. word_matches pinyin word sreq1 amb1 exc1 ex1 ac1 ne1 = Inr b"
proof -
  assume "word_matches pinyin word sreq2 amb2 exc2 ex2 ac2 ne2 = Inr True"
  then have c: "check_exact word (ex1 @ zs) = Inr True"
    and a: "assignment_exists pinyin word sreq2 amb2 exc2"
    and s: "ac2 \<subseteq> set word" "ne2 \<inter> set word = {}"
    unfolding word_matches_True assms(1) by simp_all
  from a obtain rs where "satisfying_assignment pinyin word sreq2 amb2 exc2 rs"
    unfolding assignment_exists_iff by blast
  then have "satisfying_assignment pinyin word sreq1 amb1 exc1 rs"
    using assms(2,3,4) by (rule satisfying_assignment_mono[rotated 3])
  then have a': "assignment_exists pinyin word sreq1 amb1 exc1"
    unfolding assignment_exists_iff by blast
  from s assms(5,6) have s': "ac1 \<subseteq> set word" "ne1 \<inter> set word = {}"
    by auto
  from check_exact_prefix_True[OF c] a' s'
  show "word_matches pinyin word sreq1 amb1 exc1 ex1 ac1 ne1 = Inr True"
    unfolding word_matches_True by simp
next
  assume "\<exists>b. word_matches pinyin word sreq2 amb2 exc2 ex2 ac2 ne2 = Inr b"
  then have "\<exists>b. check_exact word (ex1 @ zs) = Inr b"
    unfolding word_matches_no_error assms(1) .
  then have "\<exists>b. check_exact word ex1 = Inr b"
    using check_exact_prefix by blast
  then show "\<exists>b. word_matches pinyin word sreq1 amb1 exc1 ex1 ac1 ne1 = Inr b"
    unfolding word_matches_no_error .
qed

lemma matches_pattern_add_field:
  "matches_pattern (set_field f (Some v) req) p \<Longrightarrow> get_field f req = None \<Longrightarrow>
     matches_pattern req p"
  by (cases f) (simp_all add: matches_pattern_def field_matches_def)

lemma retained_add_field:
  assumes "get_field f (case sreq i of None \<Rightarrow> no_keys | Some r \<Rightarrow> r) = None"
  shows "set (retained pinyin
              (sreq(i \<mapsto> set_field f (Some v) (case sreq i of None \<Rightarrow> no_keys | Some r \<Rightarrow> r)))
              k ch)
         \<subseteq> set (retained pinyin sreq k ch)"
proof (cases "k = i")
  case False
  then show ?thesis by (simp add: retained_def)
next
  case True
  show ?thesis
  proof (cases "sreq i")
    case None
    with True show ?thesis by (auto simp: retained_def)
  next
    case (Some req)
    with True assms show ?thesis
      by (auto simp: retained_def dest: matches_pattern_add_field)
  qed
qed

lemma witnessed_add_value:
  "witnessed (set_field f (Some (insert v (get_set (get_field f amb)))) amb) rs \<Longrightarrow>
     witnessed amb rs"
  by (cases f) (simp_all add: witnessed_def get_set_def)

lemma carries_excluded_add_value:
  "carries_excluded exc r \<Longrightarrow>
     carries_excluded (set_field f (Some (insert v (get_set (get_field f exc)))) exc) r"
  by (cases f) (auto simp: carries_excluded_def get_set_def)

lemma add_constraint_weaker:
  assumes "add_constraint c R1 = Some R2"
  shows "\<exists>zs. exact_char_reqs R2 = exact_char_reqs R1 @ zs"
    and "set (retained pinyin (specific_reqs R2) k ch)
           \<subseteq> set (retained pinyin (specific_reqs R1) k ch)"
    and "carries_excluded (exclude_reqs R1) r \<Longrightarrow> carries_excluded (exclude_reqs R2) r"
    and "witnessed (ambiguous_reqs R2) rs \<Longrightarrow> witnessed (ambiguous_reqs R1) rs"
    and "ambiguous_chars R1 \<subseteq> ambiguous_chars R2"
    and "non_exist_chars R1 \<subseteq> non_exist_chars R2"
proof -
  have "(\<exists>zs. exact_char_reqs R2 = exact_char_reqs R1 @ zs)
      \<and> set (retained pinyin (specific_reqs R2) k ch)
           \<subseteq> set (retained pinyin (specific_reqs R1) k ch)
      \<and> (carries_excluded (exclude_reqs R1) r \<longrightarrow> carries_excluded (exclude_reqs R2) r)
      \<and> (witnessed (ambiguous_reqs R2) rs \<longrightarrow> witnessed (ambiguous_reqs R1) rs)
      \<and> ambiguous_chars R1 \<subseteq> ambiguous_chars R2
      \<and> non_exist_chars R1 \<subseteq> non_exist_chars R2"
  proof (cases c)
    case (Positional i f v)
    let ?req = "case specific_reqs R1 i of None \<Rightarrow> no_keys | Some r \<Rightarrow> r"
    from assms Positional have g: "get_field f ?req = None"
      and R2: "R2 = R1\<lparr>specific_reqs := (specific_reqs R1)(i \<mapsto> set_field f (Some v) ?req)\<rparr>"
      by (simp_all add: Let_def split: if_splits)
    have "set (retained pinyin ((specific_reqs R1)(i \<mapsto> set_field f (Some v) ?req)) k ch)
           \<subseteq> set (retained pinyin (specific_reqs R1) k ch)"
      using g by (rule retained_add_field)
    then show ?thesis unfolding R2 by simp
  next
    case (MustExist f v)
    from assms MustExist have R2: "R2 = R1\<lparr>ambiguous_reqs :=
        set_field f (Some (insert v (get_set (get_field f (ambiguous_reqs R1)))))
          (ambiguous_reqs R1)\<rparr>"
      by simp
    have "witnessed (set_field f (Some (insert v (get_set (get_field f (ambiguous_reqs R1)))))
              (ambiguous_reqs R1)) rs \<longrightarrow> witnessed (ambiguous_reqs R1) rs"
      using witnessed_add_value[of f v "ambiguous_reqs R1" rs] by blast
    then show ?thesis unfolding R2 by simp
  next
    case (MustExclude f v)
    from assms MustExclude have R2: "R2 = R1\<lparr>exclude_reqs :=
        set_field f (Some (insert v (get_set (get_field f (exclude_reqs R1)))))
          (exclude_reqs R1)\<rparr>"
      by simp
    have "carries_excluded (exclude_reqs R1) r \<longrightarrow>
            carries_excluded (set_field f (Some (insert v (get_set (get_field f (exclude_reqs R1)))))
              (exclude_reqs R1)) r"
      using carries_excluded_add_value[of "exclude_reqs R1" r f v] by blast
    then show ?thesis unfolding R2 by simp
  next
    case (ExactChar i x)
    from assms ExactChar have R2: "R2 = R1\<lparr>exact_char_reqs := exact_char_reqs R1 @ [(i, x)]\<rparr>"
      by (simp split: if_splits)
    show ?thesis unfolding R2 by simp
  next
    case (MustContain x)
    from assms MustContain have R2: "R2 = R1\<lparr>ambiguous_chars := insert x (ambiguous_chars R1)\<rparr>"
      by simp
    show ?thesis unfolding R2 by auto
  next
    case (MustNotContain x)
    from assms MustNotContain
    have R2: "R2 = R1\<lparr>non_exist_chars := insert x (non_exist_chars R1)\<rparr>"
      by simp
    show ?thesis unfolding R2 by auto
  qed
  then show "\<exists>zs. exact_char_reqs R2 = exact_char_reqs R1 @ zs"
    and "set (retained pinyin (specific_reqs R2) k ch)
           \<subseteq> set (retained pinyin (specific_reqs R1) k ch)"
    and "carries_excluded (exclude_reqs R1) r \<Longrightarrow> carries_excluded (exclude_reqs R2) r"
    and "witnessed (ambiguous_reqs R2) rs \<Longrightarrow> witnessed (ambiguous_reqs R1) rs"
    and "ambiguous_chars R1 \<subseteq> ambiguous_chars R2"
    and "non_exist_chars R1 \<subseteq> non_exist_chars R2"
    by blast+
qed

lemma add_constraint_matches:
  assumes "add_constraint c R1 = Some R2"
  shows "matches pinyin R2 word = Inr True \<Longrightarrow> matches pinyin R1 word = Inr True"
    and "\<exists>b. matches pinyin R2 word = Inr b \<Longrightarrow> \<exists>b. matches pinyin R1 word = Inr b"
proof -
  obtain zs where zs: "exact_char_reqs R2 = exact_char_reqs R1 @ zs"
    using add_constraint_weaker(1)[OF assms] by blast
  note mono = word_matches_mono[OF zs add_constraint_weaker(2)[OF assms]
      add_constraint_weaker(3)[OF assms] add_constraint_weaker(4)[OF assms]
      add_constraint_weaker(5)[OF assms] add_constraint_weaker(6)[OF assms]]
  show "matches pinyin R2 word = Inr True \<Longrightarrow> matches pinyin R1 word = Inr True"
    unfolding matches_def by (rule mono(1))
  show "\<exists>b. matches pinyin R2 word = Inr b \<Longrightarrow> \<exists>b. matches pinyin R1 word = Inr b"
    unfolding matches_def by (rule mono(2))
qed

lemma search_eq:
  "search pinyin words len R =
     collect_results (matches pinyin R) (filter (\<lambda>(w, t). length w = len) words)"
proof -
  have "matches pinyin R =
      (\<lambda>word. word_matches pinyin word (specific_reqs R) (ambiguous_reqs R) (exclude_reqs R)
         (exact_char_reqs R) (ambiguous_chars R) (non_exist_chars R))"
    by (rule ext) (simp add: matches_def)
  then show ?thesis
    by (simp add: search_def search_words_def)
qed

lemma example_add_positional:
  "add_constraint (Positional 0 Tone ''4'') no_request =
     Some (no_request\<lparr>specific_reqs := Map.empty(0 \<mapsto> no_keys\<lparr>tone := Some ''4''\<rparr>)\<rparr>)"
  by (simp add: no_request_def no_keys_def)

lemma example_matches_kept:
  "matches example_pinyin
     (no_request\<lparr>specific_reqs := Map.empty(0 \<mapsto> no_keys\<lparr>tone := Some ''4''\<rparr>)\<rparr>) [0, 1]
   = Inr True"
  using example_word_kept by (simp add: matches_def no_request_def)

lemma example_search:
  "search example_pinyin [([0, 1], ''places''), ([2, 3], ''other''), ([0], ''short'')] 2
     (no_request\<lparr>specific_reqs := Map.empty(0 \<mapsto> no_keys\<lparr>tone := Some ''4''\<rparr>)\<rparr>)
   = Inr [([0, 1], ''places'')]"
  using example_scenario by (simp add: search_def no_request_def)

text \<open>
  C4. Let the request \<open>R2\<close> be the request \<open>R1\<close> with one more constraint of any of the six
  kinds: a field of a positional pattern that was not set, a must-exist value, a
  must-exclude value, the exact character of a position that had none, a must-contain
  character, a must-exclude character. Then every word the matcher accepts under \<open>R2\<close> it
  accepts under \<open>R1\<close>, and for any word list and target length the entries the filter
  returns under \<open>R2\<close> are among those it returns under \<open>R1\<close>.
\<close>

theorem add_constraint_monotone:
  assumes "add_constraint c R1 = Some R2"
  shows "(matches pinyin R2 word = Inr True \<longrightarrow> matches pinyin R1 word = Inr True)
     \<and> (search pinyin words len R2 = Inr out2 \<longrightarrow>
          (\<exists>out1. search pinyin words len R1 = Inr out1 \<and> set out2 \<subseteq> set out1))"
proof (intro conjI impI)
  assume "matches pinyin R2 word = Inr True"
  then show "matches pinyin R1 word = Inr True"
    by (rule add_constraint_matches(1)[OF assms])
next
  let ?ws = "filter (\<lambda>(w, t). length w = len) words"
  assume "search pinyin words len R2 = Inr out2"
  then have c: "collect_results (matches pinyin R2) ?ws = Inr out2"
    by (simp only: search_eq)
  from collect_results_Inr[OF c]
  have o2: "out2 = filter (\<lambda>(w, t). matches pinyin R2 w = Inr True) ?ws"
    and ok2: "\<forall>(w, t) \<in> set ?ws. \<exists>b. matches pinyin R2 w = Inr b"
    by blast+
  have ok1: "\<forall>(w, t) \<in> set ?ws. \<exists>b. matches pinyin R1 w = Inr b"
  proof (clarify)
    fix w t assume "(w, t) \<in> set ?ws"
    with ok2 have "\<exists>b. matches pinyin R2 w = Inr b" by blast
    then show "\<exists>b. matches pinyin R1 w = Inr b"
      by (rule add_constraint_matches(2)[OF assms])
  qed
  then have o1: "search pinyin words len R1
      = Inr (filter (\<lambda>(w, t). matches pinyin R1 w = Inr True) ?ws)"
    unfolding search_eq by (rule collect_results_ok)
  have "set out2 \<subseteq> set (filter (\<lambda>(w, t). matches pinyin R1 w = Inr True) ?ws)"
  proof
    fix e assume "e \<in> set out2"
    then obtain w t where e: "e = (w, t)" "(w, t) \<in> set ?ws" "matches pinyin R2 w = Inr True"
      unfolding o2 by auto
    from e(3) have "matches pinyin R1 w = Inr True"
      by (rule add_constraint_matches(1)[OF assms])
    with e show "e \<in> set (filter (\<lambda>(w, t). matches pinyin R1 w = Inr True) ?ws)"
      by simp
  qed
  with o1 show "\<exists>out1. search pinyin words len R1 = Inr out1 \<and> set out2 \<subseteq> set out1"
    by blast
qed

theorem add_constraint_monotone_witness:
  "add_constraint (Positional 0 Tone ''4'') no_request =
     Some (no_request\<lparr>specific_reqs := Map.empty(0 \<mapsto> no_keys\<lparr>tone := Some ''4''\<rparr>)\<rparr>)
   \<and> matches example_pinyin
        (no_request\<lparr>specific_reqs := Map.empty(0 \<mapsto> no_keys\<lparr>tone := Some ''4''\<rparr>)\<rparr>) [0, 1]
      = Inr True
   \<and> matches example_pinyin no_request [0, 1] = Inr True
   \<and> search example_pinyin [([0, 1], ''places''), ([2, 3], ''other''), ([0], ''short'')] 2
        (no_request\<lparr>specific_reqs := Map.empty(0 \<mapsto> no_keys\<lparr>tone := Some ''4''\<rparr>)\<rparr>)
      = Inr [([0, 1], ''places'')]
   \<and> (\<exists>out1. search example_pinyin [([0, 1], ''places''), ([2, 3], ''other''), ([0], ''short'')]
                 2 no_request = Inr out1
          \<and> set [([0, 1], ''places'')] \<subseteq> set out1)"
proof -
  note inst = add_constraint_monotone[OF example_add_positional,
      where pinyin = example_pinyin and word = "[0, 1]"
        and words = "[([0, 1], ''places''), ([2, 3], ''other''), ([0], ''short'')]"
        and len = 2 and ?out2.0 = "[([0, 1], ''places'')]"]
  from inst example_matches_kept have a: "matches example_pinyin no_request [0, 1] = Inr True"
    by blast
  from inst example_search
  have b: "\<exists>out1. search example_pinyin [([0, 1], ''places''), ([2, 3], ''other''), ([0], ''short'')]
                 2 no_request = Inr out1
          \<and> set [([0, 1], ''places'')] \<subseteq> set out1"
    by blast
  from example_add_positional example_matches_kept a example_search b show ?thesis
    by blast
qed

end
